theory Spec2Isabelle
  imports Complex_Main "HOL-Library.AList"
begin

section \<open>The sequencing and transport engine of geMIDI\<close>

text \<open>
  A shallow embedding of the step scheduler of the application component
  (\<^verbatim>\<open>processMidiStep\<close>, \<^verbatim>\<open>handleMidiMessage\<close>, the internal-clock
  \<^verbatim>\<open>scheduler\<close>, \<^verbatim>\<open>handleSwitchPatternHistory\<close>,
  \<^verbatim>\<open>handleGeneratePattern\<close>) and of the response validation of
  \<^verbatim>\<open>services/geminiService.ts\<close>.

  JavaScript numbers that the code treats as counters, pitches, velocities, channels and bar
  counts are modelled as \<^typ>\<open>int\<close> or \<^typ>\<open>nat\<close>. Beat times are values of the
  number type (\<open>jsnum\<close>, below); durations and the automation depth and offset are the reals
  they denote, and the arithmetic the code does on them in the automation transform rounds
  every result to the nearest double. Messages handed to \<^verbatim>\<open>MIDIOutput.send\<close> are
  appended to a log in the order of the calls; their optional timestamp is not part of the
  model.
\<close>

subsection \<open>The number type\<close>

text \<open>
  A JavaScript number is a finite double, an infinity or NaN (the sign of zero is not
  modelled). \<open>roundToDouble\<close> is the rounding of IEEE 754 binary64 arithmetic, to the
  nearest double with ties to the even significand: around a magnitude \<open>a\<close> the doubles are
  the multiples of \<open>2 ^ e\<close>, where \<open>e\<close> is the largest exponent from -1074 on with
  \<open>2 ^ (52 + e) \<le> a\<close> (-1074 for the subnormal range), and a rounded magnitude of
  \<open>2 ^ 1024\<close> or more overflows to an infinity.
\<close>

datatype jsnum = Finite real | PosInfinity | NegInfinity | NaN

definition pow2 :: "int \<Rightarrow> real" where
  "pow2 e = (if e \<ge> 0 then 2 ^ nat e else 1 / 2 ^ nat (- e))"

definition ulpExponent :: "real \<Rightarrow> int" where
  \<comment> \<open>found bit by bit, from the highest\<close>
  "ulpExponent a =
     foldl (\<lambda>e k. if pow2 (52 + (e + k)) \<le> a then e + k else e) (- 1074)
       [2048, 1024, 512, 256, 128, 64, 32, 16, 8, 4, 2, 1]"

definition roundHalfEven :: "real \<Rightarrow> int" where
  "roundHalfEven q =
     (let m = \<lfloor>q\<rfloor>; r = q - real_of_int m
      in if r < 1 / 2 then m else if r > 1 / 2 then m + 1 else if even m then m else m + 1)"

definition roundToDouble :: "real \<Rightarrow> jsnum" where
  "roundToDouble x =
     (let a = \<bar>x\<bar>;
          e = ulpExponent a;
          r = real_of_int (roundHalfEven (a / pow2 e)) * pow2 e
      in if r \<ge> pow2 1024 then (if x < 0 then NegInfinity else PosInfinity)
         else Finite (if x < 0 then - r else r))"

fun signOf :: "jsnum \<Rightarrow> int" where
  "signOf (Finite a) = (if a > 0 then 1 else if a < 0 then - 1 else 0)"
| "signOf PosInfinity = 1"
| "signOf NegInfinity = - 1"
| "signOf NaN = 0"

fun jsAdd :: "jsnum \<Rightarrow> jsnum \<Rightarrow> jsnum" where
  "jsAdd (Finite a) (Finite b) = roundToDouble (a + b)"
| "jsAdd NaN y = NaN"
| "jsAdd x NaN = NaN"
| "jsAdd PosInfinity NegInfinity = NaN"
| "jsAdd NegInfinity PosInfinity = NaN"
| "jsAdd PosInfinity y = PosInfinity"
| "jsAdd x PosInfinity = PosInfinity"
| "jsAdd NegInfinity y = NegInfinity"
| "jsAdd x NegInfinity = NegInfinity"

fun jsSub :: "jsnum \<Rightarrow> jsnum \<Rightarrow> jsnum" where
  "jsSub (Finite a) (Finite b) = roundToDouble (a - b)"
| "jsSub NaN y = NaN"
| "jsSub x NaN = NaN"
| "jsSub PosInfinity PosInfinity = NaN"
| "jsSub NegInfinity NegInfinity = NaN"
| "jsSub PosInfinity y = PosInfinity"
| "jsSub x PosInfinity = NegInfinity"
| "jsSub NegInfinity y = NegInfinity"
| "jsSub x NegInfinity = PosInfinity"

fun jsMul :: "jsnum \<Rightarrow> jsnum \<Rightarrow> jsnum" where
  "jsMul (Finite a) (Finite b) = roundToDouble (a * b)"
| "jsMul NaN y = NaN"
| "jsMul x NaN = NaN"
| "jsMul x y =
     (if signOf x * signOf y = 0 then NaN
      else if signOf x * signOf y > 0 then PosInfinity else NegInfinity)"

definition jsRound :: "real \<Rightarrow> int" where
  \<comment> \<open>\<^verbatim>\<open>Math.round\<close> of a finite number: the nearest integer, a tie going up.\<close>
  "jsRound x = \<lfloor>x + 1 / 2\<rfloor>"

fun mathRound :: "jsnum \<Rightarrow> jsnum" where
  "mathRound (Finite x) = Finite (real_of_int (jsRound x))"
| "mathRound other = other"

fun mathFloor :: "jsnum \<Rightarrow> jsnum" where
  "mathFloor (Finite x) = Finite (real_of_int \<lfloor>x\<rfloor>)"
| "mathFloor other = other"

fun times4 :: "jsnum \<Rightarrow> jsnum" where
  \<comment> \<open>\<^verbatim>\<open>x * 4\<close>: multiplying a double by 4 is exact unless it overflows.\<close>
  "times4 (Finite x) =
     (if \<bar>x\<bar> * 4 < pow2 1024 then Finite (x * 4)
      else if x < 0 then NegInfinity else PosInfinity)"
| "times4 other = other"

fun quarter :: "jsnum \<Rightarrow> jsnum" where
  \<comment> \<open>\<^verbatim>\<open>x / 4\<close> for an integral \<open>x\<close>, as \<^verbatim>\<open>Math.round\<close> returns: exact.\<close>
  "quarter (Finite x) = Finite (x / 4)"
| "quarter other = other"

definition clamp127 :: "int \<Rightarrow> int" where
  \<comment> \<open>\<^verbatim>\<open>Math.max(0, Math.min(127, x))\<close>\<close>
  "clamp127 x = max 0 (min 127 x)"

definition clampRounded :: "jsnum \<Rightarrow> int" where
  \<comment> \<open>\<^verbatim>\<open>Math.max(0, Math.min(127, Math.round(value)))\<close> as the data byte sent. For NaN
      the expression is NaN, which the conversion to a byte makes 0; it does not arise from
      a finite depth and offset.\<close>
  "clampRounded value =
     (case value of
        Finite x \<Rightarrow> max 0 (min 127 (jsRound x))
      | PosInfinity \<Rightarrow> 127
      | NegInfinity \<Rightarrow> 0
      | NaN \<Rightarrow> 0)"

definition nthOpt :: "'a list \<Rightarrow> int \<Rightarrow> 'a option" where
  \<comment> \<open>Array indexing \<^verbatim>\<open>xs[i]\<close>: \<^verbatim>\<open>undefined\<close> outside the array.\<close>
  "nthOpt xs i = (if 0 \<le> i \<and> i < int (length xs) then Some (xs ! nat i) else None)"

subsection \<open>Constants\<close>

definition DEFAULT_BARS :: int where
  "DEFAULT_BARS = 4"

definition MAX_PATTERN_HISTORY :: nat where
  "MAX_PATTERN_HISTORY = 10"

definition PPQN :: nat where
  "PPQN = 24"

subsection \<open>Controller automation values\<close>

definition ccTransform :: "int \<Rightarrow> real option \<Rightarrow> real option \<Rightarrow> int" where
  \<comment> \<open>The body of the automation branch of \<^verbatim>\<open>processMidiStep\<close>:
      \<^verbatim>\<open>depth = ccData.depth ?? 1\<close>, \<^verbatim>\<open>offset = ccData.offset ?? 0\<close>,
      \<^verbatim>\<open>value = midpoint + (value - midpoint) * depth; value += offset;
      value = Math.max(0, Math.min(127, Math.round(value)))\<close>.\<close>
  "ccTransform v depthOpt offsetOpt =
     (let depth = (case depthOpt of None \<Rightarrow> 1 | Some d \<Rightarrow> d);
          offset = (case offsetOpt of None \<Rightarrow> 0 | Some off \<Rightarrow> off);
          midpoint = Finite (635 / 10);
          value1 = jsAdd midpoint (jsMul (jsSub (Finite (real_of_int v)) midpoint) (Finite depth));
          value2 = jsAdd value1 (Finite offset)
      in clampRounded value2)"

subsection \<open>Data model\<close>

datatype TrackType = DRUM | SYNTH

record MidiNote =
  noteNumber :: int
  velocity :: int
  time :: jsnum
  duration :: real

record PatternHistoryEntry =
  pattern :: "MidiNote list option"
  bars :: int
  prompt :: string

record CcAutomationEvent =
  evTime :: jsnum
  evValue :: int

record CcAutomationData =
  cc :: int
  events :: "CcAutomationEvent list"
  ccBars :: int
  depth :: "real option"
  offset :: "real option"

record Track =
  trackId :: string
  trackType :: TrackType
  channel :: int
  isLoading :: bool
  error :: "string option"
  isMuted :: bool
  isProgressionChaining :: bool
  octaveShift :: "int option"
  patternHistory :: "PatternHistoryEntry list"
  currentPatternIndex :: int
  ccAutomationData :: "CcAutomationData option list option"

record ActiveMidiNote =
  activeNote :: int
  absoluteOffStep :: int
  activeChannel :: int

record LiveEdit =
  livePattern :: "MidiNote list"
  liveBars :: int

text \<open>
  The state the scheduler reads and writes. \<open>activePlayingNotes\<close> is the
  insertion-ordered \<^verbatim>\<open>Map<string, Set<ActiveMidiNote>>\<close>: an association list of
  lists, every added note being a fresh object. \<open>pendingPatternHistorySwitch\<close> is
  \<^verbatim>\<open>null\<close> or a \<^verbatim>\<open>Map<string, number>\<close>. \<open>hasOutput\<close> says that
  \<^verbatim>\<open>selectedOutputRef.current\<close> is set, and \<open>sent\<close> is the log of the messages
  sent to it. A state setter of the UI framework takes effect when the update is processed,
  after the handler that called it has returned; a handler of the model returns the state
  with the updates of the handler processed.
\<close>

record AppState =
  tracks :: "Track list"
  isPlaying :: bool
  isPreviewMode :: bool
  isExternalClock :: bool
  hasOutput :: bool
  selectedInputId :: "string option"
  fullscreenTrackId :: "string option"
  liveEditingPattern :: "string \<rightharpoonup> LiveEdit"
  activePlayingNotes :: "(string \<times> ActiveMidiNote list) list"
  pendingPatternHistorySwitch :: "(string \<times> int) list option"
  absoluteStep :: nat
  clockTickCounter :: nat
  sent :: "int list list"

subsection \<open>processMidiStep: releasing the notes that end on this step\<close>

definition noteOffMessage :: "ActiveMidiNote \<Rightarrow> int list" where
  "noteOffMessage a = [0x80 + (activeChannel a - 1), activeNote a, 0]"

definition endsAt :: "nat \<Rightarrow> ActiveMidiNote \<Rightarrow> bool" where
  "endsAt currentAbsoluteStep a = (absoluteOffStep a = int currentAbsoluteStep)"

definition releaseTrackNotes ::
  "nat \<Rightarrow> ActiveMidiNote list \<Rightarrow> int list list \<times> ActiveMidiNote list" where
  \<comment> \<open>One set of the table: a note-off for every note that ends now, in the order of the set,
      then those notes deleted from it.\<close>
  "releaseTrackNotes currentAbsoluteStep trackNotes =
     (map noteOffMessage (filter (endsAt currentAbsoluteStep) trackNotes),
      filter (\<lambda>a. \<not> endsAt currentAbsoluteStep a) trackNotes)"

definition releaseExpired ::
  "nat \<Rightarrow> (string \<times> ActiveMidiNote list) list
     \<Rightarrow> int list list \<times> (string \<times> ActiveMidiNote list) list" where
  "releaseExpired currentAbsoluteStep active =
     (concat (map (\<lambda>(tid, trackNotes). fst (releaseTrackNotes currentAbsoluteStep trackNotes)) active),
      map (\<lambda>(tid, trackNotes). (tid, snd (releaseTrackNotes currentAbsoluteStep trackNotes))) active)"

subsection \<open>processMidiStep: resolving the pattern of a track\<close>

definition liveEditFor :: "(string \<rightharpoonup> LiveEdit) \<Rightarrow> string option \<Rightarrow> Track \<Rightarrow> LiveEdit option" where
  \<comment> \<open>\<^verbatim>\<open>liveEditData && fullscreenTrackId === track.id\<close>\<close>
  "liveEditFor live fullscreen track =
     (case live (trackId track) of
        None \<Rightarrow> None
      | Some liveEditData \<Rightarrow> if fullscreen = Some (trackId track) then Some liveEditData else None)"

definition barsOrDefault :: "PatternHistoryEntry \<Rightarrow> int" where
  \<comment> \<open>\<^verbatim>\<open>p.bars > 0 ? p.bars : DEFAULT_BARS\<close>\<close>
  "barsOrDefault p = (if bars p > 0 then bars p else DEFAULT_BARS)"

definition historyWithBars :: "PatternHistoryEntry list \<Rightarrow> PatternHistoryEntry list" where
  "historyWithBars h = map (\<lambda>p. p\<lparr>bars := barsOrDefault p\<rparr>) h"

definition totalProgressionSteps :: "PatternHistoryEntry list \<Rightarrow> int" where
  \<comment> \<open>\<^verbatim>\<open>historyWithBars.reduce((sum, p) => sum + p.bars * 16, 0)\<close>\<close>
  "totalProgressionSteps hwb = foldl (\<lambda>sum p. sum + bars p * 16) 0 hwb"

fun walkProgression ::
  "int \<Rightarrow> int \<Rightarrow> PatternHistoryEntry list \<Rightarrow> MidiNote list option \<times> int" where
  "walkProgression g cumulativeSteps [] = (None, 0)"
| "walkProgression g cumulativeSteps (entry # rest) =
     (let patternSteps = bars entry * 16
      in if g \<ge> cumulativeSteps \<and> g < cumulativeSteps + patternSteps
         then (pattern entry, g - cumulativeSteps)
         else walkProgression g (cumulativeSteps + patternSteps) rest)"

definition chainedResolve :: "PatternHistoryEntry list \<Rightarrow> nat \<Rightarrow> MidiNote list option \<times> int" where
  \<comment> \<open>The branch \<^verbatim>\<open>else if (track.isProgressionChaining)\<close>; the result is
      \<^verbatim>\<open>(patternForStep, trackLocalStep)\<close>, initially \<^verbatim>\<open>(null, 0)\<close>.\<close>
  "chainedResolve history currentAbsoluteStep =
     (let hwb = historyWithBars history;
          total = totalProgressionSteps hwb
      in if total > 0
         then walkProgression (int currentAbsoluteStep mod total) 0 hwb
         else (None, 0))"

definition resolvePattern ::
  "(string \<rightharpoonup> LiveEdit) \<Rightarrow> string option \<Rightarrow> Track \<Rightarrow> nat \<Rightarrow> MidiNote list option \<times> int" where
  "resolvePattern live fullscreen track currentAbsoluteStep =
     (case liveEditFor live fullscreen track of
        Some liveEditData \<Rightarrow>
          (let trackTotalSteps = liveBars liveEditData * 16
           in (Some (livePattern liveEditData),
               if trackTotalSteps > 0 then int currentAbsoluteStep mod trackTotalSteps else 0))
      | None \<Rightarrow>
          if isProgressionChaining track
          then chainedResolve (patternHistory track) currentAbsoluteStep
          else (case nthOpt (patternHistory track) (currentPatternIndex track) of
                  None \<Rightarrow> (None, 0)
                | Some historyEntry \<Rightarrow>
                    (let trackTotalSteps = barsOrDefault historyEntry * 16
                     in (pattern historyEntry,
                         if trackTotalSteps > 0 then int currentAbsoluteStep mod trackTotalSteps
                         else 0))))"

subsection \<open>processMidiStep: triggering notes and automation\<close>

definition finalPitch :: "Track \<Rightarrow> MidiNote \<Rightarrow> int" where
  "finalPitch track n =
     (let finalNote = noteNumber n;
          shifted = (case octaveShift track of
                       Some s \<Rightarrow> if trackType track = SYNTH then finalNote + s * 12 else finalNote
                     | None \<Rightarrow> finalNote)
      in max 0 (min 127 shifted))"

definition startsAt :: "int \<Rightarrow> MidiNote \<Rightarrow> bool" where
  \<comment> \<open>\<^verbatim>\<open>Math.floor(note.time * 4) === trackLocalStep\<close>\<close>
  "startsAt trackLocalStep n =
     (mathFloor (times4 (time n)) = Finite (real_of_int trackLocalStep))"

definition noteOnMessage :: "Track \<Rightarrow> MidiNote \<Rightarrow> int list" where
  "noteOnMessage track n = [0x90 + (channel track - 1), finalPitch track n, velocity n]"

definition startedNote :: "Track \<Rightarrow> nat \<Rightarrow> MidiNote \<Rightarrow> ActiveMidiNote" where
  "startedNote track currentAbsoluteStep n =
     \<lparr>activeNote = finalPitch track n,
      absoluteOffStep = int currentAbsoluteStep + \<lfloor>duration n * 4\<rfloor>,
      activeChannel = channel track\<rparr>"

definition ccLaneMessages :: "Track \<Rightarrow> nat \<Rightarrow> CcAutomationData \<Rightarrow> int list list" where
  "ccLaneMessages track currentAbsoluteStep ccData =
     (let automationTotalSteps = ccBars ccData * 16;
          currentAutomationLocalStep =
            (if automationTotalSteps > 0 then int currentAbsoluteStep mod automationTotalSteps else 0)
      in map (\<lambda>ev. [0xB0 + (channel track - 1), cc ccData,
                     ccTransform (evValue ev) (depth ccData) (offset ccData)])
           (filter (\<lambda>ev. mathFloor (times4 (evTime ev))
                           = Finite (real_of_int currentAutomationLocalStep))
              (events ccData)))"

definition ccMessages :: "Track \<Rightarrow> nat \<Rightarrow> int list list" where
  "ccMessages track currentAbsoluteStep =
     (if trackType track = SYNTH
      then (case ccAutomationData track of
              None \<Rightarrow> []
            | Some lanes \<Rightarrow>
                concat (map (\<lambda>lane. case lane of
                                       None \<Rightarrow> []
                                     | Some ccData \<Rightarrow> ccLaneMessages track currentAbsoluteStep ccData)
                          lanes))
      else [])"

definition processTrack ::
  "(string \<rightharpoonup> LiveEdit) \<Rightarrow> string option \<Rightarrow> nat \<Rightarrow> Track
     \<Rightarrow> int list list \<times> (string \<times> ActiveMidiNote list) list
     \<Rightarrow> int list list \<times> (string \<times> ActiveMidiNote list) list" where
  \<comment> \<open>The body of \<^verbatim>\<open>tracksRef.current.forEach(track => ...)\<close>, on the messages sent
      so far in this step and the table of sounding notes.\<close>
  "processTrack live fullscreen currentAbsoluteStep track acc =
     (if isMuted track then acc
      else (case resolvePattern live fullscreen track currentAbsoluteStep of
              (None, trackLocalStep) \<Rightarrow> acc
            | (Some patternForStep, trackLocalStep) \<Rightarrow>
                (let trackActiveNotes =
                       (case map_of (snd acc) (trackId track) of None \<Rightarrow> [] | Some ns \<Rightarrow> ns);
                     starting = filter (startsAt trackLocalStep) patternForStep
                 in (fst acc @ map (noteOnMessage track) starting
                       @ ccMessages track currentAbsoluteStep,
                     AList.update (trackId track)
                       (trackActiveNotes @ map (startedNote track currentAbsoluteStep) starting)
                       (snd acc)))))"

definition triggerTracks ::
  "AppState \<Rightarrow> nat \<Rightarrow> (string \<times> ActiveMidiNote list) list
     \<Rightarrow> int list list \<times> (string \<times> ActiveMidiNote list) list" where
  "triggerTracks st currentAbsoluteStep active =
     foldl (\<lambda>acc track.
              processTrack (liveEditingPattern st) (fullscreenTrackId st) currentAbsoluteStep track acc)
       ([], active) (tracks st)"

definition processMidiStep :: "AppState \<Rightarrow> nat \<Rightarrow> AppState" where
  "processMidiStep st currentAbsoluteStep =
     (if isPreviewMode st \<or> \<not> hasOutput st then st
      else (let released = releaseExpired currentAbsoluteStep (activePlayingNotes st);
                triggered = triggerTracks st currentAbsoluteStep (snd released)
            in st\<lparr>sent := sent st @ fst released @ fst triggered,
                  activePlayingNotes := snd triggered\<rparr>))"

subsection \<open>Flushing\<close>

definition allNotesOffMessages :: "AppState \<Rightarrow> int list list" where
  \<comment> \<open>What \<^verbatim>\<open>sendAllNotesOff\<close> sends: a note-off for every sounding note of a track that
      is still in the track list, then controller 123 on the sixteen channels.\<close>
  "allNotesOffMessages st =
     concat (map (\<lambda>(tid, notes).
                    case find (\<lambda>t. trackId t = tid) (tracks st) of
                      None \<Rightarrow> []
                    | Some track \<Rightarrow> map noteOffMessage notes)
               (activePlayingNotes st))
     @ map (\<lambda>i. [0xB0 + int i, 123, 0]) [0..<16]"

definition sendAllNotesOff :: "AppState \<Rightarrow> AppState" where
  "sendAllNotesOff st =
     (if hasOutput st \<and> \<not> isPreviewMode st
      then st\<lparr>sent := sent st @ allNotesOffMessages st, activePlayingNotes := []\<rparr>
      else st)"

subsection \<open>The shared loop and the pending pattern switches\<close>

definition anyTrackChaining :: "AppState \<Rightarrow> bool" where
  "anyTrackChaining st = list_ex isProgressionChaining (tracks st)"

definition trackLoopSteps :: "(string \<rightharpoonup> LiveEdit) \<Rightarrow> string option \<Rightarrow> Track \<Rightarrow> int" where
  \<comment> \<open>The function mapped over the tracks in \<^verbatim>\<open>handleMidiMessage\<close>.\<close>
  "trackLoopSteps live fullscreen t =
     (case liveEditFor live fullscreen t of
        Some livePatternData \<Rightarrow> liveBars livePatternData * 16
      | None \<Rightarrow>
          (case nthOpt (patternHistory t) (currentPatternIndex t) of
             None \<Rightarrow> 0
           | Some currentEntry \<Rightarrow>
               (let tb = barsOrDefault currentEntry
                in case pattern currentEntry of None \<Rightarrow> 0 | Some p \<Rightarrow> tb * 16)))"

definition activePatternSteps :: "(string \<rightharpoonup> LiveEdit) \<Rightarrow> string option \<Rightarrow> Track \<Rightarrow> int" where
  \<comment> \<open>The function mapped over the tracks in the internal-clock scheduler: the same, after
      \<^verbatim>\<open>if (t.isProgressionChaining) return 0\<close>.\<close>
  "activePatternSteps live fullscreen t =
     (if isProgressionChaining t then 0 else trackLoopSteps live fullscreen t)"

definition loopEndStepForNormalMode :: "AppState \<Rightarrow> int" where
  \<comment> \<open>\<^verbatim>\<open>Math.max(16, ...tracksRef.current.map(...))\<close> of the internal-clock scheduler\<close>
  "loopEndStepForNormalMode st =
     foldl max 16 (map (activePatternSteps (liveEditingPattern st) (fullscreenTrackId st)) (tracks st))"

definition loopEndStep :: "AppState \<Rightarrow> int" where
  \<comment> \<open>\<^verbatim>\<open>Math.max(16, ...tracksRef.current.map(...))\<close> of \<^verbatim>\<open>handleMidiMessage\<close>\<close>
  "loopEndStep st =
     foldl max 16 (map (trackLoopSteps (liveEditingPattern st) (fullscreenTrackId st)) (tracks st))"

definition atLoopBoundary :: "int \<Rightarrow> nat \<Rightarrow> bool" where
  \<comment> \<open>\<^verbatim>\<open>loopEnd > 0 && currentLocalStep === loopEnd - 1\<close> with
      \<^verbatim>\<open>currentLocalStep = loopEnd > 0 ? step % loopEnd : step\<close>\<close>
  "atLoopBoundary loopEnd step =
     (loopEnd > 0 \<and> (if loopEnd > 0 then int step mod loopEnd else int step) = loopEnd - 1)"

definition switchTarget :: "(string \<times> int) list \<Rightarrow> Track \<Rightarrow> int option" where
  "switchTarget switchesToProcess t =
     (case map_of switchesToProcess (trackId t) of
        None \<Rightarrow> None
      | Some newIndexForTrack \<Rightarrow>
          if newIndexForTrack \<ge> 0 \<and> newIndexForTrack < int (length (patternHistory t))
          then Some newIndexForTrack else None)"

definition switchTrack :: "(string \<times> int) list \<Rightarrow> Track \<Rightarrow> Track" where
  "switchTrack switchesToProcess t =
     (case switchTarget switchesToProcess t of
        None \<Rightarrow> t
      | Some newIndexForTrack \<Rightarrow> t\<lparr>currentPatternIndex := newIndexForTrack, error := None\<rparr>)"

definition applySwitches :: "(string \<times> int) list \<Rightarrow> AppState \<Rightarrow> AppState" where
  \<comment> \<open>The \<^verbatim>\<open>setTracks\<close> updater of the boundary branch: it switches the tracks and, in
      MIDI output mode, deletes their sets from the table of sounding notes. The updater
      also collects the channels of the switched tracks, but it runs when the state update
      is processed, after the loop over \<^verbatim>\<open>channelsToReset\<close> that follows the call has
      found the set empty: no controller message is sent.\<close>
  "applySwitches switchesToProcess st =
     (let switched = filter (\<lambda>t. switchTarget switchesToProcess t \<noteq> None) (tracks st);
          midi = (\<not> isPreviewMode st \<and> hasOutput st)
      in st\<lparr>tracks := map (switchTrack switchesToProcess) (tracks st),
            activePlayingNotes :=
              (if midi
               then foldl (\<lambda>active t. AList.delete (trackId t) active) (activePlayingNotes st) switched
               else activePlayingNotes st)\<rparr>)"

definition applyPendingAtBoundary :: "int \<Rightarrow> nat \<Rightarrow> AppState \<Rightarrow> AppState" where
  "applyPendingAtBoundary loopEnd step st =
     (case pendingPatternHistorySwitch st of
        None \<Rightarrow> st
      | Some pending \<Rightarrow>
          if atLoopBoundary loopEnd step \<and> length pending > 0
          then applySwitches pending (st\<lparr>pendingPatternHistorySwitch := Some []\<rparr>)
          else st)"


subsection \<open>The internal-clock scheduler\<close>

definition schedulerStep :: "AppState \<Rightarrow> AppState" where
  \<comment> \<open>One run of \<^verbatim>\<open>scheduler\<close> in which a step is due
      (\<^verbatim>\<open>now - lastStepTimeRef.current >= stepDurationMs\<close>).\<close>
  "schedulerStep st =
     (if \<not> isPlaying st \<or> isExternalClock st \<or> isPreviewMode st then st
      else (let nextAbsoluteStepToProcess = absoluteStep st;
                st1 = processMidiStep st nextAbsoluteStepToProcess;
                st2 = st1\<lparr>absoluteStep := nextAbsoluteStepToProcess + 1\<rparr>
            in if \<not> anyTrackChaining st2
               then applyPendingAtBoundary (loopEndStepForNormalMode st2) nextAbsoluteStepToProcess st2
               else st2))"


subsection \<open>The external clock\<close>

definition handleMidiMessage :: "AppState \<Rightarrow> int \<Rightarrow> AppState" where
  \<comment> \<open>\<open>command\<close> is the status byte \<^verbatim>\<open>event.data[0]\<close>. The tempo estimate that the
      clock branch computes from the arrival times is not part of the model.\<close>
  "handleMidiMessage st command =
     (if isPreviewMode st
      then (if command = 0xFC \<and> isPlaying st then st\<lparr>isPlaying := False\<rparr> else st)
      else if command = 0xF8 \<and> selectedInputId st \<noteq> None
      then (let st1 = st\<lparr>isExternalClock := True, clockTickCounter := clockTickCounter st + 1\<rparr>
            in if clockTickCounter st1 mod (PPQN div 4) = 0 \<and> isPlaying st1
               then (let currentAbsoluteStepForLogic = absoluteStep st1;
                         st2 = processMidiStep st1 currentAbsoluteStepForLogic;
                         st3 = st2\<lparr>absoluteStep := currentAbsoluteStepForLogic + 1\<rparr>
                     in if \<not> anyTrackChaining st3
                        then applyPendingAtBoundary (loopEndStep st3) currentAbsoluteStepForLogic st3
                        else st3)
               else st1)
      else if command = 0xFA
      then (let st1 = st\<lparr>isExternalClock := True, absoluteStep := 0, clockTickCounter := 0\<rparr>;
                st2 = (sendAllNotesOff st1)\<lparr>isPlaying := True\<rparr>;
                st3 = processMidiStep st2 0
            in st3\<lparr>absoluteStep := 1\<rparr>)
      else if command = 0xFB
      then st\<lparr>isExternalClock := True, isPlaying := True\<rparr>
      else if command = 0xFC
      then (sendAllNotesOff (st\<lparr>isExternalClock := False, isPlaying := False\<rparr>))
             \<lparr>clockTickCounter := 0, pendingPatternHistorySwitch := None\<rparr>
      else st)"

subsection \<open>Validation of the generated pattern (services/geminiService.ts)\<close>

text \<open>
  \<^verbatim>\<open>JSON.parse\<close> is a library function: its outcome on the cleaned response text is the
  input of the model, \<open>Inl\<close> carrying the message of the \<^verbatim>\<open>SyntaxError\<close> it throws.
  A number literal may parse to an infinity (\<^verbatim>\<open>1e999\<close>). An object is the list of its own
  properties, each key once.
\<close>

datatype json =
    JNull
  | JBool bool
  | JNumber jsnum
  | JString string
  | JArray "json list"
  | JObject "(string \<times> json) list"

fun getProp :: "json \<Rightarrow> string \<Rightarrow> json option" where
  "getProp (JObject props) k = map_of props k"
| "getProp other k = None"

fun isObject :: "json \<Rightarrow> bool" where
  \<comment> \<open>\<^verbatim>\<open>p && typeof p === 'object'\<close>\<close>
  "isObject (JObject props) = True"
| "isObject (JArray elems) = True"
| "isObject other = False"

fun finiteNumber :: "json option \<Rightarrow> real option" where
  \<comment> \<open>\<^verbatim>\<open>typeof x === 'number' && isFinite(x)\<close>, giving the value\<close>
  "finiteNumber (Some (JNumber (Finite r))) = Some r"
| "finiteNumber other = None"

definition validMidiNote :: "json \<Rightarrow> bool" where
  "validMidiNote p =
     (isObject p
      \<and> (case finiteNumber (getProp p ''note'') of None \<Rightarrow> False | Some n \<Rightarrow> n \<ge> 0 \<and> n \<le> 127)
      \<and> (case finiteNumber (getProp p ''velocity'') of None \<Rightarrow> False | Some v \<Rightarrow> v \<ge> 0 \<and> v \<le> 127)
      \<and> (case finiteNumber (getProp p ''time'') of None \<Rightarrow> False | Some t \<Rightarrow> t \<ge> 0)
      \<and> (case finiteNumber (getProp p ''duration'') of None \<Rightarrow> False | Some d \<Rightarrow> d > 0))"

definition numberOf :: "json \<Rightarrow> string \<Rightarrow> real" where
  \<comment> \<open>The value of a property that passed the filter.\<close>
  "numberOf p k = (case finiteNumber (getProp p k) of None \<Rightarrow> 0 | Some r \<Rightarrow> r)"

definition toMidiNote :: "json \<Rightarrow> MidiNote" where
  "toMidiNote p =
     \<lparr>noteNumber = jsRound (numberOf p ''note''),
      velocity = jsRound (numberOf p ''velocity''),
      time = quarter (mathRound (times4 (Finite (numberOf p ''time'')))),
      duration = numberOf p ''duration''\<rparr>"

definition parseGeminiResponse :: "string + json \<Rightarrow> string + MidiNote list" where
  \<comment> \<open>\<open>Inl\<close> is the message of the \<^verbatim>\<open>Error\<close> thrown.\<close>
  "parseGeminiResponse parsed =
     (case parsed of
        Inl syntaxErrorMessage \<Rightarrow>
          Inl (''Failed to parse AI response. Expected JSON array of MIDI notes. ''
                 @ syntaxErrorMessage)
      | Inr (JArray elems) \<Rightarrow> Inr (map toMidiNote (filter validMidiNote elems))
      | Inr other \<Rightarrow>
          Inl (''Failed to parse AI response. Expected JSON array of MIDI notes. ''
                 @ ''Parsed JSON is not an array of MIDI notes.''))"

fun startsWith :: "string \<Rightarrow> string \<Rightarrow> bool" where
  "startsWith s [] = True"
| "startsWith [] (c # cs) = False"
| "startsWith (x # xs) (c # cs) = (x = c \<and> startsWith xs cs)"

fun stringIncludes :: "string \<Rightarrow> string \<Rightarrow> bool" where
  \<comment> \<open>\<^verbatim>\<open>String.prototype.includes\<close>\<close>
  "stringIncludes [] sub = (sub = [])"
| "stringIncludes (x # xs) sub = (startsWith (x # xs) sub \<or> stringIncludes xs sub)"

definition generateMidiPattern :: "bool \<Rightarrow> string + (string + json) \<Rightarrow> string + MidiNote list" where
  \<comment> \<open>\<open>apiKey\<close>: \<^verbatim>\<open>API_KEY\<close> is set. \<open>response\<close>: the rejection message of the
      request, or the parsed text of its response.\<close>
  "generateMidiPattern apiKey response =
     (if \<not> apiKey then Inl ''Gemini API Key is not configured.''
      else (case (case response of
                    Inl requestError \<Rightarrow> Inl requestError
                  | Inr parsed \<Rightarrow> parseGeminiResponse parsed) of
              Inr notes \<Rightarrow> Inr notes
            | Inl message \<Rightarrow>
                if stringIncludes message ''API key not valid''
                then Inl ''Invalid Gemini API Key. Please check your configuration.''
                else Inl (''AI pattern generation failed. '' @ message)))"

subsection \<open>handleGeneratePattern\<close>

definition handleGeneratePattern ::
  "AppState \<Rightarrow> string \<Rightarrow> string \<Rightarrow> int \<Rightarrow> bool \<Rightarrow> string \<Rightarrow> string + MidiNote list
     \<Rightarrow> string option \<times> AppState" where
  \<comment> \<open>\<open>generated\<close> is the outcome of the awaited \<^verbatim>\<open>generateMidiPattern\<close>;
      \<open>typeErrorMessage\<close> is the message of the \<^verbatim>\<open>TypeError\<close> raised when the track is
      not found. The first component of the result is the message of the error rethrown to
      the caller, if any.\<close>
  "handleGeneratePattern st tid userPrompt barsToGenerate isChainedGeneration typeErrorMessage generated =
     (let loading = map (\<lambda>t. if trackId t = tid then t\<lparr>isLoading := True, error := None\<rparr> else t)
                      (tracks st);
          failed = (\<lambda>errorMessage.
                      (Some errorMessage,
                       st\<lparr>tracks := map (\<lambda>t. if trackId t = tid
                                               then t\<lparr>isLoading := False, error := Some errorMessage\<rparr>
                                               else t) loading\<rparr>))
      in case find (\<lambda>t. trackId t = tid) (tracks st) of
           None \<Rightarrow> failed typeErrorMessage
         | Some currentTrack \<Rightarrow>
             (case generated of
                Inl errorMessage \<Rightarrow> failed errorMessage
              | Inr generatedNotes \<Rightarrow>
                  (let newHistoryEntry =
                         \<lparr>pattern = Some generatedNotes, bars = barsToGenerate, prompt = userPrompt\<rparr>;
                       currentlyPlaying = isPlaying st
                   in (None,
                       st\<lparr>tracks :=
                            map (\<lambda>t. if trackId t = tid
                                      then (let wasHistoryEmpty = (length (patternHistory t) = 0);
                                                finalPatternHistory =
                                                  take MAX_PATTERN_HISTORY (newHistoryEntry # patternHistory t);
                                                newCurrentPatternIndex =
                                                  (if \<not> isChainedGeneration \<and> currentlyPlaying
                                                      \<and> \<not> wasHistoryEmpty
                                                   then currentPatternIndex t + 1 else 0)
                                            in t\<lparr>patternHistory := finalPatternHistory,
                                                 currentPatternIndex := newCurrentPatternIndex,
                                                 isLoading := False, error := None\<rparr>)
                                      else t) loading,
                          pendingPatternHistorySwitch :=
                            (if \<not> isChainedGeneration \<and> currentlyPlaying \<and> \<not> anyTrackChaining st
                             then Some (AList.update tid 0
                                          (case pendingPatternHistorySwitch st of
                                             None \<Rightarrow> [] | Some pending \<Rightarrow> pending))
                             else pendingPatternHistorySwitch st)\<rparr>))))"

subsection \<open>Validation of generated automation (services/geminiService.ts)\<close>




subsection \<open>The initial state of the application\<close>

definition NUM_CC_LANES :: nat where
  "NUM_CC_LANES = 3"

definition initialDrumTrack :: Track where
  "initialDrumTrack =
     \<lparr>trackId = ''drum-track-0'', trackType = DRUM, channel = 10, isLoading = False,
      error = None, isMuted = False, isProgressionChaining = False, octaveShift = None,
      patternHistory = [], currentPatternIndex = 0, ccAutomationData = None\<rparr>"

definition initialSynthTrack :: Track where
  "initialSynthTrack =
     \<lparr>trackId = ''synth-track-1'', trackType = SYNTH, channel = 1, isLoading = False,
      error = None, isMuted = False, isProgressionChaining = False, octaveShift = Some 0,
      patternHistory = [], currentPatternIndex = 0,
      ccAutomationData = Some (replicate NUM_CC_LANES None)\<rparr>"

definition initialState :: AppState where
  \<comment> \<open>The initial values of the component's state and refs; no output device is selected.\<close>
  "initialState =
     \<lparr>tracks = [initialDrumTrack, initialSynthTrack], isPlaying = False, isPreviewMode = False,
      isExternalClock = False, hasOutput = False, selectedInputId = None,
      fullscreenTrackId = None, liveEditingPattern = Map.empty, activePlayingNotes = [],
      pendingPatternHistorySwitch = None, absoluteStep = 0, clockTickCounter = 0, sent = []\<rparr>"

subsection \<open>The progression as the specification describes it\<close>

text \<open>
  The specification's words for a chained track: the length of an entry in steps, the steps
  accumulated before the \<open>k\<close>-th entry, and the total. The bar count of an entry is read as
  the scheduler reads it (\<^const>\<open>barsOrDefault\<close>).
\<close>

definition spec_entrySteps :: "PatternHistoryEntry \<Rightarrow> int" where
  "spec_entrySteps e = barsOrDefault e * 16"

definition spec_stepsBefore :: "PatternHistoryEntry list \<Rightarrow> nat \<Rightarrow> int" where
  "spec_stepsBefore h k = sum_list (map spec_entrySteps (take k h))"

definition spec_totalSteps :: "PatternHistoryEntry list \<Rightarrow> int" where
  "spec_totalSteps h = sum_list (map spec_entrySteps h)"

section \<open>Theorems\<close>

subsection \<open>Auxiliary facts about the number type\<close>

lemma pow2_pos: "0 < pow2 e"
  by (simp add: pow2_def)

lemma pow2_1024: "pow2 1024 = 2 ^ 1024"
  by (simp add: pow2_def)

lemma roundHalfEven_of_int: "roundHalfEven (real_of_int m) = m"
  by (simp add: roundHalfEven_def Let_def)

lemma roundToDouble_exact:
  assumes e: "ulpExponent \<bar>x\<bar> = e"
      and m: "\<bar>x\<bar> / pow2 e = real_of_int m"
      and small: "\<bar>x\<bar> < pow2 1024"
  shows "roundToDouble x = Finite x"
proof -
  have "real_of_int m * pow2 e = \<bar>x\<bar>"
    using m pow2_pos[of e] by (simp add: field_simps)
  then have r: "real_of_int (roundHalfEven (\<bar>x\<bar> / pow2 e)) * pow2 e = \<bar>x\<bar>"
    by (simp add: m roundHalfEven_of_int)
  show ?thesis
    unfolding roundToDouble_def Let_def e r using small by auto
qed




lemma startsAt_Finite:
  "time n = Finite x \<Longrightarrow> \<bar>x\<bar> * 4 < 2 ^ 1024 \<Longrightarrow> startsAt l n \<longleftrightarrow> \<lfloor>x * 4\<rfloor> = l"
  by (simp add: startsAt_def pow2_1024)

subsection \<open>Auxiliary facts about the progression walk\<close>

lemma foldl_add_sum:
  "foldl (\<lambda>sum p. sum + f p) a xs = a + sum_list (map f xs)" for a :: int
  by (induction xs arbitrary: a) simp_all

lemma totalProgressionSteps_sum:
  "totalProgressionSteps hwb = sum_list (map (\<lambda>p. bars p * 16) hwb)"
  by (simp add: totalProgressionSteps_def foldl_add_sum)

lemma barsOrDefault_pos: "0 < barsOrDefault p"
  by (simp add: barsOrDefault_def DEFAULT_BARS_def)

lemma historyWithBars_steps:
  "map (\<lambda>p. bars p * 16) (historyWithBars h) = map (\<lambda>p. barsOrDefault p * 16) h"
  by (simp add: historyWithBars_def)

lemma walkProgression_at:
  "\<lbrakk> k < length hs; \<forall>e \<in> set hs. 0 \<le> bars e;
     c + sum_list (map (\<lambda>p. bars p * 16) (take k hs)) \<le> g;
     g < c + sum_list (map (\<lambda>p. bars p * 16) (take k hs)) + bars (hs ! k) * 16 \<rbrakk>
   \<Longrightarrow> walkProgression g c hs
         = (pattern (hs ! k), g - (c + sum_list (map (\<lambda>p. bars p * 16) (take k hs))))"
proof (induction hs arbitrary: k c)
  case Nil
  then show ?case by simp
next
  case (Cons e rest)
  show ?case
  proof (cases k)
    case 0
    with Cons.prems show ?thesis by (simp add: Let_def)
  next
    case (Suc j)
    have nn: "0 \<le> sum_list (map (\<lambda>p. bars p * 16) (take j rest))"
      using Cons.prems(2) by (intro sum_list_nonneg) (auto dest: in_set_takeD)
    have skip: "\<not> (g \<ge> c \<and> g < c + bars e * 16)"
      using Cons.prems(3) nn Suc by simp
    have "walkProgression g (c + bars e * 16) rest
            = (pattern (rest ! j), g - (c + bars e * 16 + sum_list (map (\<lambda>p. bars p * 16) (take j rest))))"
      using Cons.prems Suc by (intro Cons.IH) (simp_all add: algebra_simps)
    with skip Suc show ?thesis by (auto simp add: Let_def algebra_simps)
  qed
qed

lemma walk_index_exists:
  "\<lbrakk> \<forall>e \<in> set hs. 0 < f e; (0::int) \<le> g; g < sum_list (map f hs) \<rbrakk>
   \<Longrightarrow> \<exists>k < length hs. sum_list (map f (take k hs)) \<le> g
           \<and> g < sum_list (map f (take k hs)) + f (hs ! k)"
proof (induction hs rule: rev_induct)
  case Nil
  then show ?case by simp
next
  case (snoc e rest)
  show ?case
  proof (cases "g < sum_list (map f rest)")
    case True
    then obtain k where "k < length rest" "sum_list (map f (take k rest)) \<le> g"
      "g < sum_list (map f (take k rest)) + f (rest ! k)"
      using snoc by auto
    then show ?thesis by (intro exI[of _ k]) (simp add: nth_append)
  next
    case False
    with snoc.prems show ?thesis by (intro exI[of _ "length rest"]) simp
  qed
qed

lemma spec_entrySteps_pos: "0 < spec_entrySteps e"
  using barsOrDefault_pos[of e] by (simp add: spec_entrySteps_def)

lemma total_eq_spec: "totalProgressionSteps (historyWithBars h) = spec_totalSteps h"
  by (simp add: totalProgressionSteps_sum historyWithBars_steps spec_totalSteps_def
        spec_entrySteps_def[abs_def])

lemma spec_totalSteps_pos: "h \<noteq> [] \<Longrightarrow> 0 < spec_totalSteps h"
proof -
  assume "h \<noteq> []"
  then obtain e rest where h: "h = e # rest" by (cases h) auto
  have "0 \<le> sum_list (map spec_entrySteps rest)"
    by (intro sum_list_nonneg) (auto simp: less_imp_le spec_entrySteps_pos)
  with spec_entrySteps_pos[of e] h show ?thesis by (simp add: spec_totalSteps_def)
qed

lemma chainedResolve_at:
  assumes k: "k < length h"
    and lo: "spec_stepsBefore h k \<le> int step mod spec_totalSteps h"
    and hi: "int step mod spec_totalSteps h < spec_stepsBefore h k + spec_entrySteps (h ! k)"
  shows "chainedResolve h step
           = (pattern (h ! k), int step mod spec_totalSteps h - spec_stepsBefore h k)"
proof -
  let ?hwb = "historyWithBars h"
  from k have ne: "h \<noteq> []" by auto
  have sb: "sum_list (map (\<lambda>p. bars p * 16) (take k ?hwb)) = spec_stepsBefore h k"
    by (simp add: historyWithBars_def spec_stepsBefore_def spec_entrySteps_def[abs_def]
          take_map o_def)
  have bk: "bars (?hwb ! k) * 16 = spec_entrySteps (h ! k)"
    using k by (simp add: historyWithBars_def spec_entrySteps_def)
  have pk: "pattern (?hwb ! k) = pattern (h ! k)"
    using k by (simp add: historyWithBars_def)
  have nonneg: "\<forall>e \<in> set ?hwb. 0 \<le> bars e"
    using barsOrDefault_pos by (auto simp: historyWithBars_def less_imp_le)
  have len: "k < length ?hwb"
    using k by (simp add: historyWithBars_def)
  have lo': "0 + sum_list (map (\<lambda>p. bars p * 16) (take k ?hwb)) \<le> int step mod spec_totalSteps h"
    using lo by (simp add: sb)
  have hi': "int step mod spec_totalSteps h
               < 0 + sum_list (map (\<lambda>p. bars p * 16) (take k ?hwb)) + bars (?hwb ! k) * 16"
    using hi by (simp add: sb bk)
  have "walkProgression (int step mod spec_totalSteps h) 0 ?hwb
          = (pattern (?hwb ! k),
             int step mod spec_totalSteps h - (0 + sum_list (map (\<lambda>p. bars p * 16) (take k ?hwb))))"
    by (rule walkProgression_at[OF len nonneg lo' hi'])
  then show ?thesis
    using spec_totalSteps_pos[OF ne]
    by (simp add: chainedResolve_def Let_def total_eq_spec sb pk)
qed

subsection \<open>Auxiliary facts about one step\<close>

lemma releaseExpired_messages:
  "fst (releaseExpired s active)
     = map noteOffMessage (filter (endsAt s) (concat (map snd active)))"
  by (induction active) (auto simp: releaseExpired_def releaseTrackNotes_def)

lemma releaseExpired_table:
  "snd (releaseExpired s active)
     = map (\<lambda>(tid, ns). (tid, filter (\<lambda>a. \<not> endsAt s a) ns)) active"
  by (simp add: releaseExpired_def releaseTrackNotes_def)

lemma ccLaneMessages_form:
  "m \<in> set (ccLaneMessages t s ccData) \<Longrightarrow> \<exists>c v. m = [0xB0 + (channel t - 1), c, v]"
  by (auto simp: ccLaneMessages_def Let_def)

lemma ccMessages_form:
  "\<forall>m \<in> set (ccMessages t s). \<exists>c v. m = [0xB0 + (channel t - 1), c, v]"
proof
  fix m
  assume m: "m \<in> set (ccMessages t s)"
  have "ccAutomationData t \<noteq> None"
  proof
    assume "ccAutomationData t = None"
    then have "ccMessages t s = []" by (simp add: ccMessages_def)
    with m show False by simp
  qed
  then obtain lanes where l: "ccAutomationData t = Some lanes"
    by auto
  have "trackType t = SYNTH"
  proof (rule ccontr)
    assume "trackType t \<noteq> SYNTH"
    then have "ccMessages t s = []" by (simp add: ccMessages_def)
    with m show False by simp
  qed
  with l have "ccMessages t s
      = concat (map (\<lambda>lane. case lane of None \<Rightarrow> []
                               | Some ccData \<Rightarrow> ccLaneMessages t s ccData) lanes)"
    by (simp add: ccMessages_def)
  with m obtain lane where "lane \<in> set lanes"
    "m \<in> set (case lane of None \<Rightarrow> [] | Some ccData \<Rightarrow> ccLaneMessages t s ccData)"
    by auto
  then obtain ccData where "m \<in> set (ccLaneMessages t s ccData)"
    by (auto split: option.splits)
  then show "\<exists>c v. m = [0xB0 + (channel t - 1), c, v]"
    by (rule ccLaneMessages_form)
qed

lemma processTrack_messages:
  "\<exists>new. fst (processTrack live fs s t acc) = fst acc @ new
        \<and> (\<forall>m \<in> set new. (\<exists>n. m = noteOnMessage t n)
                            \<or> (\<exists>c v. m = [0xB0 + (channel t - 1), c, v]))"
proof (cases "isMuted t \<or> fst (resolvePattern live fs t s) = None")
  case True
  have "processTrack live fs s t acc = acc"
  proof (cases "resolvePattern live fs t s")
    case (Pair p l)
    with True show ?thesis by (auto simp: processTrack_def)
  qed
  then show ?thesis by simp
next
  case False
  obtain x l where xl: "resolvePattern live fs t s = (x, l)"
    by fastforce
  with False obtain p where "x = Some p" by auto
  with xl have r: "resolvePattern live fs t s = (Some p, l)" by simp
  have cc: "\<forall>m \<in> set (ccMessages t s). \<exists>c v. m = [0xB0 + (channel t - 1), c, v]"
    by (rule ccMessages_form)
  have "fst (processTrack live fs s t acc)
          = fst acc @ (map (noteOnMessage t) (filter (startsAt l) p) @ ccMessages t s)"
    using False r by (simp add: processTrack_def Let_def)
  moreover have "\<forall>m \<in> set (map (noteOnMessage t) (filter (startsAt l) p) @ ccMessages t s).
      (\<exists>n. m = noteOnMessage t n) \<or> (\<exists>c v. m = [0xB0 + (channel t - 1), c, v])"
    using cc by auto
  ultimately show ?thesis by blast
qed

lemma foldl_processTrack_messages:
  "\<exists>new. fst (foldl (\<lambda>acc t. processTrack live fs s t acc) acc ts) = fst acc @ new
        \<and> (\<forall>m \<in> set new. \<exists>t \<in> set ts. (\<exists>n. m = noteOnMessage t n)
                            \<or> (\<exists>c v. m = [0xB0 + (channel t - 1), c, v]))"
proof (induction ts arbitrary: acc)
  case Nil
  then show ?case by simp
next
  case (Cons t ts)
  obtain new1 where n1: "fst (processTrack live fs s t acc) = fst acc @ new1"
    "\<forall>m \<in> set new1. (\<exists>n. m = noteOnMessage t n) \<or> (\<exists>c v. m = [0xB0 + (channel t - 1), c, v])"
    using processTrack_messages by blast
  obtain new2 where n2:
    "fst (foldl (\<lambda>acc t. processTrack live fs s t acc) (processTrack live fs s t acc) ts)
       = fst (processTrack live fs s t acc) @ new2"
    "\<forall>m \<in> set new2. \<exists>t \<in> set ts. (\<exists>n. m = noteOnMessage t n)
                            \<or> (\<exists>c v. m = [0xB0 + (channel t - 1), c, v])"
    using Cons.IH by blast
  have "fst (foldl (\<lambda>acc t. processTrack live fs s t acc) acc (t # ts)) = fst acc @ (new1 @ new2)"
    using n1 n2 by simp
  moreover have "\<forall>m \<in> set (new1 @ new2). \<exists>t' \<in> set (t # ts). (\<exists>n. m = noteOnMessage t' n)
                            \<or> (\<exists>c v. m = [0xB0 + (channel t' - 1), c, v])"
    using n1(2) n2(2) by auto
  ultimately show ?case by blast
qed

lemma triggerTracks_messages:
  "\<forall>m \<in> set (fst (triggerTracks st s active)).
     \<exists>t \<in> set (tracks st). (\<exists>n. m = noteOnMessage t n)
                            \<or> (\<exists>c v. m = [0xB0 + (channel t - 1), c, v])"
  using foldl_processTrack_messages[of "liveEditingPattern st" "fullscreenTrackId st" s
      "([], active)" "tracks st"]
  by (auto simp: triggerTracks_def)

lemma processMidiStep_frame:
  "tracks (processMidiStep st s) = tracks st"
  "isPlaying (processMidiStep st s) = isPlaying st"
  "isPreviewMode (processMidiStep st s) = isPreviewMode st"
  "isExternalClock (processMidiStep st s) = isExternalClock st"
  "hasOutput (processMidiStep st s) = hasOutput st"
  "selectedInputId (processMidiStep st s) = selectedInputId st"
  "fullscreenTrackId (processMidiStep st s) = fullscreenTrackId st"
  "liveEditingPattern (processMidiStep st s) = liveEditingPattern st"
  "pendingPatternHistorySwitch (processMidiStep st s) = pendingPatternHistorySwitch st"
  "absoluteStep (processMidiStep st s) = absoluteStep st"
  "clockTickCounter (processMidiStep st s) = clockTickCounter st"
  by (simp_all add: processMidiStep_def Let_def)

lemma processMidiStep_sent:
  "\<not> isPreviewMode st \<Longrightarrow> hasOutput st \<Longrightarrow>
   sent (processMidiStep st s)
     = sent st @ fst (releaseExpired s (activePlayingNotes st))
         @ fst (triggerTracks st s (snd (releaseExpired s (activePlayingNotes st))))"
  by (simp add: processMidiStep_def Let_def)

subsection \<open>Auxiliary facts: what the transport leaves alone\<close>

lemma switchTrack_frame:
  "patternHistory (switchTrack sw t) = patternHistory t"
  "trackId (switchTrack sw t) = trackId t"
  "isProgressionChaining (switchTrack sw t) = isProgressionChaining t"
  "isMuted (switchTrack sw t) = isMuted t"
  "channel (switchTrack sw t) = channel t"
  by (simp_all add: switchTrack_def split: option.splits)

lemma applySwitches_frame:
  "tracks (applySwitches sw st) = map (switchTrack sw) (tracks st)"
  "isPlaying (applySwitches sw st) = isPlaying st"
  "isPreviewMode (applySwitches sw st) = isPreviewMode st"
  "isExternalClock (applySwitches sw st) = isExternalClock st"
  "hasOutput (applySwitches sw st) = hasOutput st"
  "selectedInputId (applySwitches sw st) = selectedInputId st"
  "fullscreenTrackId (applySwitches sw st) = fullscreenTrackId st"
  "liveEditingPattern (applySwitches sw st) = liveEditingPattern st"
  "pendingPatternHistorySwitch (applySwitches sw st) = pendingPatternHistorySwitch st"
  "absoluteStep (applySwitches sw st) = absoluteStep st"
  "clockTickCounter (applySwitches sw st) = clockTickCounter st"
  by (simp_all add: applySwitches_def Let_def)

lemma applyPendingAtBoundary_frame:
  "isPlaying (applyPendingAtBoundary l s st) = isPlaying st"
  "isPreviewMode (applyPendingAtBoundary l s st) = isPreviewMode st"
  "isExternalClock (applyPendingAtBoundary l s st) = isExternalClock st"
  "hasOutput (applyPendingAtBoundary l s st) = hasOutput st"
  "selectedInputId (applyPendingAtBoundary l s st) = selectedInputId st"
  "fullscreenTrackId (applyPendingAtBoundary l s st) = fullscreenTrackId st"
  "liveEditingPattern (applyPendingAtBoundary l s st) = liveEditingPattern st"
  "absoluteStep (applyPendingAtBoundary l s st) = absoluteStep st"
  "clockTickCounter (applyPendingAtBoundary l s st) = clockTickCounter st"
  by (simp_all add: applyPendingAtBoundary_def applySwitches_frame split: option.splits)

lemma applyPendingAtBoundary_history:
  "map patternHistory (tracks (applyPendingAtBoundary l s st)) = map patternHistory (tracks st)"
  by (simp add: applyPendingAtBoundary_def applySwitches_frame switchTrack_frame o_def
      split: option.splits)

lemma applyPendingAtBoundary_sent:
  "\<exists>extra. sent (applyPendingAtBoundary l s st) = sent st @ extra"
  by (simp add: applyPendingAtBoundary_def applySwitches_def Let_def split: option.splits)

lemma applyPendingAtBoundary_sent_same:
  "sent (applyPendingAtBoundary l s st) = sent st"
  by (simp add: applyPendingAtBoundary_def applySwitches_def Let_def split: option.splits)

lemma sendAllNotesOff_frame:
  "tracks (sendAllNotesOff st) = tracks st"
  "isPlaying (sendAllNotesOff st) = isPlaying st"
  "isPreviewMode (sendAllNotesOff st) = isPreviewMode st"
  "isExternalClock (sendAllNotesOff st) = isExternalClock st"
  "hasOutput (sendAllNotesOff st) = hasOutput st"
  "selectedInputId (sendAllNotesOff st) = selectedInputId st"
  "fullscreenTrackId (sendAllNotesOff st) = fullscreenTrackId st"
  "liveEditingPattern (sendAllNotesOff st) = liveEditingPattern st"
  "pendingPatternHistorySwitch (sendAllNotesOff st) = pendingPatternHistorySwitch st"
  "absoluteStep (sendAllNotesOff st) = absoluteStep st"
  "clockTickCounter (sendAllNotesOff st) = clockTickCounter st"
  by (simp_all add: sendAllNotesOff_def)

lemma schedulerStep_history:
  "map patternHistory (tracks (schedulerStep st)) = map patternHistory (tracks st)"
  by (simp add: schedulerStep_def Let_def applyPendingAtBoundary_history processMidiStep_frame)

lemma handleMidiMessage_history:
  "map patternHistory (tracks (handleMidiMessage st command)) = map patternHistory (tracks st)"
  by (simp add: handleMidiMessage_def Let_def applyPendingAtBoundary_history
      processMidiStep_frame sendAllNotesOff_frame)

subsection \<open>Auxiliary facts about rounding and validation\<close>





lemma finiteNumber_Some:
  "finiteNumber x = Some r \<longleftrightarrow> x = Some (JNumber (Finite r))"
  by (cases x rule: finiteNumber.cases) auto

lemma getProp_number:
  "finiteNumber (getProp p k) = Some r
     \<longleftrightarrow> (\<exists>props. p = JObject props \<and> map_of props k = Some (JNumber (Finite r)))"
  by (cases p) (auto simp: finiteNumber_Some)

lemma parseGeminiResponse_array:
  "parseGeminiResponse (Inr (JArray elems)) = Inr (map toMidiNote (filter validMidiNote elems))"
  by (simp add: parseGeminiResponse_def)

lemma parseGeminiResponse_error:
  "(\<forall>elems. parsed \<noteq> Inr (JArray elems)) \<Longrightarrow> \<exists>msg. parseGeminiResponse parsed = Inl msg"
  by (cases parsed) (auto simp: parseGeminiResponse_def split: json.splits)

subsection \<open>Auxiliary facts: the messages of the tracks\<close>

lemma processTrack_fst:
  "fst (processTrack live fs s t acc)
     = fst acc @
       (if isMuted t then []
        else case resolvePattern live fs t s of
               (None, l) \<Rightarrow> []
             | (Some p, l) \<Rightarrow> map (noteOnMessage t) (filter (startsAt l) p) @ ccMessages t s)"
  by (simp add: processTrack_def Let_def split: prod.splits option.splits)

lemma foldl_processTrack_fst:
  "fst (foldl (\<lambda>acc t. processTrack live fs s t acc) acc ts)
     = fst acc @
       concat (map (\<lambda>t. if isMuted t then []
                         else case resolvePattern live fs t s of
                                (None, l) \<Rightarrow> []
                              | (Some p, l) \<Rightarrow>
                                  map (noteOnMessage t) (filter (startsAt l) p) @ ccMessages t s)
                 ts)"
proof (induction ts arbitrary: acc)
  case Nil
  then show ?case by simp
next
  case (Cons t ts)
  show ?case
    by (simp only: foldl_Cons Cons.IH processTrack_fst list.map concat.simps append_assoc)
qed

lemma triggerTracks_fst:
  "fst (triggerTracks st s active)
     = concat (map (\<lambda>t. if isMuted t then []
                         else case resolvePattern (liveEditingPattern st) (fullscreenTrackId st) t s of
                                (None, l) \<Rightarrow> []
                              | (Some p, l) \<Rightarrow>
                                  map (noteOnMessage t) (filter (startsAt l) p) @ ccMessages t s)
                 (tracks st))"
  unfolding triggerTracks_def foldl_processTrack_fst by simp

lemma processMidiStep_sent_tracks:
  "\<not> isPreviewMode st \<Longrightarrow> hasOutput st \<Longrightarrow>
   sent (processMidiStep st s)
     = sent st @ map noteOffMessage (filter (endsAt s) (concat (map snd (activePlayingNotes st))))
         @ concat (map (\<lambda>t. if isMuted t then []
                         else case resolvePattern (liveEditingPattern st) (fullscreenTrackId st) t s of
                                (None, l) \<Rightarrow> []
                              | (Some p, l) \<Rightarrow>
                                  map (noteOnMessage t) (filter (startsAt l) p) @ ccMessages t s)
                 (tracks st))"
  using processMidiStep_sent[of st s]
  by (simp add: triggerTracks_fst releaseExpired_messages)

lemma track_messages_sent:
  assumes "\<not> isPreviewMode st" "hasOutput st" "t \<in> set (tracks st)" "\<not> isMuted t"
      and "resolvePattern (liveEditingPattern st) (fullscreenTrackId st) t s = (Some p, l)"
      and "m \<in> set (map (noteOnMessage t) (filter (startsAt l) p) @ ccMessages t s)"
  shows "m \<in> set (sent (processMidiStep st s))"
proof -
  let ?f = "\<lambda>t. if isMuted t then []
                 else case resolvePattern (liveEditingPattern st) (fullscreenTrackId st) t s of
                        (None, l) \<Rightarrow> []
                      | (Some p, l) \<Rightarrow>
                          map (noteOnMessage t) (filter (startsAt l) p) @ ccMessages t s"
  have "?f t = map (noteOnMessage t) (filter (startsAt l) p) @ ccMessages t s"
    using assms(4,5) by simp
  with assms(6) have "m \<in> set (?f t)" by simp
  with assms(3) have "m \<in> set (concat (map ?f (tracks st)))"
    by (simp only: set_concat set_map) blast
  then show ?thesis
    by (simp only: processMidiStep_sent_tracks[OF assms(1,2)] set_append Un_iff simp_thms)
qed




subsection \<open>Auxiliary facts about handleGeneratePattern\<close>

lemma in_map_if:
  "y \<in> set (map (\<lambda>x. if P x then h x else x) xs)
     \<Longrightarrow> (\<exists>x \<in> set xs. P x \<and> y = h x) \<or> (y \<in> set xs \<and> \<not> P y)"
  by auto

lemma map_if_twice:
  "map (\<lambda>x. if P x then h x else x) (map (\<lambda>x. if P x then g x else x) xs)
     = map (\<lambda>x. if P x then (if P (g x) then h (g x) else g x) else x) xs"
  by simp

lemma handleGeneratePattern_failed:
  "find (\<lambda>t. trackId t = tid) (tracks st) = Some ct \<Longrightarrow>
   handleGeneratePattern st tid userPrompt b chained tmsg (Inl msg)
     = (Some msg,
        st\<lparr>tracks := map (\<lambda>t. if trackId t = tid
                                then t\<lparr>isLoading := False, error := Some msg\<rparr> else t)
                        (tracks st)\<rparr>)"
  unfolding handleGeneratePattern_def Let_def map_if_twice by simp

lemma handleGeneratePattern_succeeded:
  "find (\<lambda>t. trackId t = tid) (tracks st) = Some ct \<Longrightarrow>
   handleGeneratePattern st tid userPrompt b chained tmsg (Inr notes)
     = (None,
        st\<lparr>tracks :=
             map (\<lambda>t. if trackId t = tid
                       then t\<lparr>patternHistory :=
                                take MAX_PATTERN_HISTORY
                                  (\<lparr>pattern = Some notes, bars = b, prompt = userPrompt\<rparr>
                                     # patternHistory t),
                              currentPatternIndex :=
                                (if \<not> chained \<and> isPlaying st \<and> \<not> (length (patternHistory t) = 0)
                                 then currentPatternIndex t + 1 else 0),
                              isLoading := False, error := None\<rparr>
                       else t)
               (tracks st),
            pendingPatternHistorySwitch :=
              (if \<not> chained \<and> isPlaying st \<and> \<not> anyTrackChaining st
               then Some (AList.update tid 0
                            (case pendingPatternHistorySwitch st of
                               None \<Rightarrow> [] | Some pending \<Rightarrow> pending))
               else pendingPatternHistorySwitch st)\<rparr>)"
  unfolding handleGeneratePattern_def Let_def map_if_twice by simp

subsection \<open>Auxiliary facts about the shared loop\<close>







subsection \<open>Auxiliary facts about the scheduler and the pending switches\<close>













subsection \<open>Auxiliary facts about the external clock\<close>

lemma clock_pulse:
  assumes "\<not> isPreviewMode st" and "selectedInputId st \<noteq> None"
  shows "clockTickCounter (handleMidiMessage st 0xF8) = clockTickCounter st + 1"
    and "absoluteStep (handleMidiMessage st 0xF8)
           = absoluteStep st + (if (clockTickCounter st + 1) mod 6 = 0 \<and> isPlaying st then 1 else 0)"
    and "isPlaying (handleMidiMessage st 0xF8) = isPlaying st"
    and "isPreviewMode (handleMidiMessage st 0xF8) = isPreviewMode st"
    and "selectedInputId (handleMidiMessage st 0xF8) = selectedInputId st"
  using assms
  by (simp_all add: handleMidiMessage_def Let_def PPQN_def applyPendingAtBoundary_frame
      processMidiStep_frame)

lemma clock_pulse_idle:
  assumes "\<not> isPreviewMode st" and "selectedInputId st \<noteq> None"
    and "(clockTickCounter st + 1) mod 6 \<noteq> 0"
  shows "handleMidiMessage st 0xF8
           = st\<lparr>isExternalClock := True, clockTickCounter := clockTickCounter st + 1\<rparr>"
  using assms by (simp add: handleMidiMessage_def Let_def PPQN_def)

lemma clock_pulse_step:
  assumes "\<not> isPreviewMode st" and "selectedInputId st \<noteq> None"
    and "(clockTickCounter st + 1) mod 6 = 0" and "isPlaying st"
  shows "\<exists>extra. sent (handleMidiMessage st 0xF8)
           = sent (processMidiStep
                     (st\<lparr>isExternalClock := True, clockTickCounter := clockTickCounter st + 1\<rparr>)
                     (absoluteStep st)) @ extra"
proof -
  let ?st1 = "st\<lparr>isExternalClock := True, clockTickCounter := clockTickCounter st + 1\<rparr>"
  let ?st3 = "(processMidiStep ?st1 (absoluteStep st))\<lparr>absoluteStep := absoluteStep st + 1\<rparr>"
  have "handleMidiMessage st 0xF8
          = (if \<not> anyTrackChaining ?st3
             then applyPendingAtBoundary (loopEndStep ?st3) (absoluteStep st) ?st3 else ?st3)"
    using assms by (simp add: handleMidiMessage_def Let_def PPQN_def)
  moreover obtain extra where
    "sent (applyPendingAtBoundary (loopEndStep ?st3) (absoluteStep st) ?st3) = sent ?st3 @ extra"
    using applyPendingAtBoundary_sent by blast
  ultimately show ?thesis
    by (cases "anyTrackChaining ?st3") auto
qed

lemma clock_pulses:
  assumes "\<not> isPreviewMode st" and "selectedInputId st \<noteq> None" and "isPlaying st"
  shows "absoluteStep (((\<lambda>s. handleMidiMessage s 0xF8) ^^ n) st)
           = absoluteStep st + ((clockTickCounter st + n) div 6 - clockTickCounter st div 6)
       \<and> clockTickCounter (((\<lambda>s. handleMidiMessage s 0xF8) ^^ n) st) = clockTickCounter st + n
       \<and> \<not> isPreviewMode (((\<lambda>s. handleMidiMessage s 0xF8) ^^ n) st)
       \<and> selectedInputId (((\<lambda>s. handleMidiMessage s 0xF8) ^^ n) st) \<noteq> None
       \<and> isPlaying (((\<lambda>s. handleMidiMessage s 0xF8) ^^ n) st)"
proof (induction n)
  case 0
  with assms show ?case by simp
next
  case (Suc n)
  let ?stn = "((\<lambda>s. handleMidiMessage s 0xF8) ^^ n) st"
  from Suc have ih: "absoluteStep ?stn
           = absoluteStep st + ((clockTickCounter st + n) div 6 - clockTickCounter st div 6)"
    "clockTickCounter ?stn = clockTickCounter st + n"
    "\<not> isPreviewMode ?stn" "selectedInputId ?stn \<noteq> None" "isPlaying ?stn"
    by simp_all
  note p = clock_pulse[OF ih(3,4)]
  have mono: "clockTickCounter st div 6 \<le> (clockTickCounter st + n) div 6"
    by (rule div_le_mono) simp
  have "absoluteStep (handleMidiMessage ?stn 0xF8)
          = absoluteStep st + ((clockTickCounter st + Suc n) div 6 - clockTickCounter st div 6)"
    using p(2) ih(1,2,5) mono by (simp add: div_Suc)
  with p ih show ?case by simp
qed

lemma allNotesOffMessages_all:
  assumes "\<forall>(tid, ns) \<in> set (activePlayingNotes st). find (\<lambda>t. trackId t = tid) (tracks st) \<noteq> None"
  shows "allNotesOffMessages st
           = map noteOffMessage (concat (map snd (activePlayingNotes st)))
             @ map (\<lambda>i. [0xB0 + int i, 123, 0]) [0..<16]"
proof -
  have "concat (map (\<lambda>(tid, ns). case find (\<lambda>t. trackId t = tid) (tracks st) of
                                     None \<Rightarrow> [] | Some track \<Rightarrow> map noteOffMessage ns) active)
          = map noteOffMessage (concat (map snd active))"
    if "\<forall>(tid, ns) \<in> set active. find (\<lambda>t. trackId t = tid) (tracks st) \<noteq> None" for active
    using that by (induction active) (auto split: option.splits)
  from this[OF assms] show ?thesis by (simp only: allNotesOffMessages_def)
qed

lemma triggerTracks_cong:
  "tracks st' = tracks st \<Longrightarrow> liveEditingPattern st' = liveEditingPattern st
   \<Longrightarrow> fullscreenTrackId st' = fullscreenTrackId st
   \<Longrightarrow> triggerTracks st' s active = triggerTracks st s active"
  by (simp add: triggerTracks_def)

lemma start_message:
  assumes "\<not> isPreviewMode st"
  shows "isPlaying (handleMidiMessage st 0xFA)"
    and "isExternalClock (handleMidiMessage st 0xFA)"
    and "clockTickCounter (handleMidiMessage st 0xFA) = 0"
    and "absoluteStep (handleMidiMessage st 0xFA) = 1"
    and "isPreviewMode (handleMidiMessage st 0xFA) = isPreviewMode st"
    and "selectedInputId (handleMidiMessage st 0xFA) = selectedInputId st"
    and "handleMidiMessage (st\<lparr>absoluteStep := k, clockTickCounter := c\<rparr>) 0xFA = handleMidiMessage st 0xFA"
  using assms
  by (simp_all add: handleMidiMessage_def Let_def processMidiStep_frame sendAllNotesOff_frame
      sendAllNotesOff_def allNotesOffMessages_def)

lemma start_message_sent:
  assumes "\<not> isPreviewMode st" and "hasOutput st"
  shows "sent (handleMidiMessage st 0xFA)
           = sent st @ allNotesOffMessages st @ fst (triggerTracks st 0 [])"
    and "activePlayingNotes (handleMidiMessage st 0xFA) = snd (triggerTracks st 0 [])"
proof -
  let ?st1 = "st\<lparr>isExternalClock := True, absoluteStep := 0, clockTickCounter := 0\<rparr>"
  let ?st2 = "(sendAllNotesOff ?st1)\<lparr>isPlaying := True\<rparr>"
  have eq: "handleMidiMessage st 0xFA = (processMidiStep ?st2 0)\<lparr>absoluteStep := 1\<rparr>"
    using assms(1) by (simp add: handleMidiMessage_def Let_def)
  have s2: "sent ?st2 = sent st @ allNotesOffMessages st" "activePlayingNotes ?st2 = []"
    "\<not> isPreviewMode ?st2" "hasOutput ?st2"
    using assms by (simp_all add: sendAllNotesOff_def allNotesOffMessages_def)
  have tt: "triggerTracks ?st2 0 [] = triggerTracks st 0 []"
    by (rule triggerTracks_cong) (simp_all add: sendAllNotesOff_frame)
  show "sent (handleMidiMessage st 0xFA)
           = sent st @ allNotesOffMessages st @ fst (triggerTracks st 0 [])"
    unfolding eq using s2 tt
    by (simp add: processMidiStep_def Let_def releaseExpired_def)
  show "activePlayingNotes (handleMidiMessage st 0xFA) = snd (triggerTracks st 0 [])"
    unfolding eq using s2 tt
    by (simp add: processMidiStep_def Let_def releaseExpired_def)
qed

lemma stop_message:
  assumes "\<not> isPreviewMode st"
  shows "\<not> isPlaying (handleMidiMessage st 0xFC)"
    and "\<not> isExternalClock (handleMidiMessage st 0xFC)"
    and "absoluteStep (handleMidiMessage st 0xFC) = absoluteStep st"
    and "clockTickCounter (handleMidiMessage st 0xFC) = 0"
    and "pendingPatternHistorySwitch (handleMidiMessage st 0xFC) = None"
    and "hasOutput st \<Longrightarrow> activePlayingNotes (handleMidiMessage st 0xFC) = []"
    and "hasOutput st \<Longrightarrow> sent (handleMidiMessage st 0xFC) = sent st @ allNotesOffMessages st"
  using assms
  by (simp_all add: handleMidiMessage_def sendAllNotesOff_frame sendAllNotesOff_def
      allNotesOffMessages_def)

subsection \<open>C1: the priority order of pattern resolution\<close>

text \<open>
  C1. For every track and every absolute step the scheduler resolves the pattern to play in
  this order. (1) If a live-edit override exists for the track (an entry of the live-edit
  table for the track on which the editor is open), its pattern is used, and for a positive
  bar count the local step is the absolute step modulo bars * 16. (2) Otherwise, if the track
  is progression-chaining, the chained resolution is used. (3) Otherwise the history entry at
  the current index is used, the local step being the absolute step modulo bars * 16, where
  the bar count is the entry's when that is positive. When there is no such entry no pattern
  resolves, and a track for which no pattern resolves leaves the messages sent and the table
  of sounding notes as they were.
\<close>

theorem C1_resolution_priority:
  "(liveEditFor live fs t = Some d \<longleftrightarrow> live (trackId t) = Some d \<and> fs = Some (trackId t))
   \<and> (liveEditFor live fs t = Some d \<and> 0 < liveBars d \<longrightarrow>
        resolvePattern live fs t step
          = (Some (livePattern d), int step mod (liveBars d * 16)))
   \<and> (liveEditFor live fs t = None \<and> isProgressionChaining t \<longrightarrow>
        resolvePattern live fs t step = chainedResolve (patternHistory t) step)
   \<and> (liveEditFor live fs t = None \<and> \<not> isProgressionChaining t
        \<and> nthOpt (patternHistory t) (currentPatternIndex t) = Some e \<longrightarrow>
        resolvePattern live fs t step = (pattern e, int step mod (barsOrDefault e * 16))
        \<and> (0 < bars e \<longrightarrow> barsOrDefault e = bars e))
   \<and> (liveEditFor live fs t = None \<and> \<not> isProgressionChaining t
        \<and> nthOpt (patternHistory t) (currentPatternIndex t) = None \<longrightarrow>
        fst (resolvePattern live fs t step) = None)
   \<and> (fst (resolvePattern live fs t step) = None \<longrightarrow>
        processTrack live fs step t acc = acc)"
proof (intro conjI impI)
  show "liveEditFor live fs t = Some d \<longleftrightarrow> live (trackId t) = Some d \<and> fs = Some (trackId t)"
    by (auto simp: liveEditFor_def split: option.splits)
next
  assume "liveEditFor live fs t = Some d \<and> 0 < liveBars d"
  then show "resolvePattern live fs t step
          = (Some (livePattern d), int step mod (liveBars d * 16))"
    by (simp add: resolvePattern_def Let_def)
next
  assume "liveEditFor live fs t = None \<and> isProgressionChaining t"
  then show "resolvePattern live fs t step = chainedResolve (patternHistory t) step"
    by (simp add: resolvePattern_def)
next
  assume a: "liveEditFor live fs t = None \<and> \<not> isProgressionChaining t
        \<and> nthOpt (patternHistory t) (currentPatternIndex t) = Some e"
  have "0 < barsOrDefault e * 16" using barsOrDefault_pos[of e] by simp
  with a show "resolvePattern live fs t step = (pattern e, int step mod (barsOrDefault e * 16))"
    by (simp add: resolvePattern_def Let_def)
next
  assume "0 < bars e"
  then show "barsOrDefault e = bars e" by (simp add: barsOrDefault_def)
next
  assume "liveEditFor live fs t = None \<and> \<not> isProgressionChaining t
        \<and> nthOpt (patternHistory t) (currentPatternIndex t) = None"
  then show "fst (resolvePattern live fs t step) = None"
    by (simp add: resolvePattern_def)
next
  assume "fst (resolvePattern live fs t step) = None"
  then show "processTrack live fs step t acc = acc"
    by (cases "resolvePattern live fs t step") (simp add: processTrack_def)
qed

text \<open>
  An instance of each case: an override of two bars at step 70, a chained track, a track with
  one entry of four bars at step 70, and a track with an empty history.
\<close>

theorem C1_resolution_priority_witness:
  "resolvePattern [''synth-track-1'' \<mapsto> \<lparr>livePattern = [], liveBars = 2\<rparr>] (Some ''synth-track-1'')
     initialSynthTrack 70 = (Some [], 6)
   \<and> resolvePattern Map.empty None
        (initialSynthTrack\<lparr>isProgressionChaining := True,
                           patternHistory := [\<lparr>pattern = Some [], bars = 1, prompt = ''a''\<rparr>]\<rparr>) 70
       = chainedResolve [\<lparr>pattern = Some [], bars = 1, prompt = ''a''\<rparr>] 70
   \<and> resolvePattern Map.empty None
        (initialSynthTrack\<lparr>patternHistory := [\<lparr>pattern = Some [], bars = 4, prompt = ''a''\<rparr>]\<rparr>) 70
       = (Some [], 6)
   \<and> fst (resolvePattern Map.empty None initialSynthTrack 70) = None
   \<and> processTrack Map.empty None 70 initialSynthTrack ([], []) = ([], [])"
proof -
  let ?live = "[''synth-track-1'' \<mapsto> \<lparr>livePattern = [], liveBars = 2\<rparr>]"
  let ?e1 = "\<lparr>pattern = Some [], bars = 1, prompt = ''a''\<rparr>"
  let ?e4 = "\<lparr>pattern = Some [], bars = 4, prompt = ''a''\<rparr>"
  have a: "resolvePattern ?live (Some ''synth-track-1'') initialSynthTrack 70 = (Some [], 6)"
    using C1_resolution_priority[where live="?live" and fs="Some ''synth-track-1''"
        and t=initialSynthTrack and d="\<lparr>livePattern = [], liveBars = 2\<rparr>" and step=70]
    by (simp add: liveEditFor_def initialSynthTrack_def)
  have b: "resolvePattern Map.empty None
        (initialSynthTrack\<lparr>isProgressionChaining := True, patternHistory := [?e1]\<rparr>) 70
       = chainedResolve [?e1] 70"
    using C1_resolution_priority[where live=Map.empty and fs=None and step=70
        and t="initialSynthTrack\<lparr>isProgressionChaining := True, patternHistory := [?e1]\<rparr>"]
    by (simp add: liveEditFor_def initialSynthTrack_def)
  have c: "resolvePattern Map.empty None (initialSynthTrack\<lparr>patternHistory := [?e4]\<rparr>) 70
       = (Some [], 6)"
    using C1_resolution_priority[where live=Map.empty and fs=None and step=70 and e="?e4"
        and t="initialSynthTrack\<lparr>patternHistory := [?e4]\<rparr>"]
    by (simp add: liveEditFor_def initialSynthTrack_def nthOpt_def barsOrDefault_def)
  have d: "fst (resolvePattern Map.empty None initialSynthTrack 70) = None"
    using C1_resolution_priority[where live=Map.empty and fs=None and step=70
        and t=initialSynthTrack]
    by (simp add: liveEditFor_def initialSynthTrack_def nthOpt_def)
  have e: "processTrack Map.empty None 70 initialSynthTrack ([], []) = ([], [])"
    using C1_resolution_priority[where live=Map.empty and fs=None and step=70
        and t=initialSynthTrack and acc="([], [])"] d
    by simp
  from a b c d e show ?thesis by simp
qed

subsection \<open>Auxiliary facts: double arithmetic at particular values\<close>



lemma roundToDouble_minus_half: "roundToDouble (- (1 / 2)) = Finite (- (1 / 2))"
proof -
  have e: "ulpExponent \<bar>- (1 / 2)\<bar> = - 53"
    by (simp add: ulpExponent_def pow2_def)
  show ?thesis
    by (rule roundToDouble_exact[OF e, where m="2 ^ 52"]) (simp_all add: pow2_def)
qed














subsection \<open>Auxiliary facts about the pending switches on the external clock\<close>








subsection \<open>C2: resolution of a chained progression\<close>

text \<open>
  C2. For every progression-chaining track with a non-empty pattern history and every
  absolute step, the total is the sum over the history entries of bars * 16 and is positive;
  with globalLocal the absolute step modulo the total, there is an entry whose step range
  contains globalLocal, and the scheduler selects exactly the entry whose range contains it,
  the local step being globalLocal minus the steps accumulated before that entry. In
  particular, with at least two entries, step b1 * 16 - 1 is attributed to the first entry
  (local step b1 * 16 - 1) and step b1 * 16 to the second (local step 0).
\<close>

theorem C2_chained_resolution:
  "h \<noteq> [] \<longrightarrow>
     totalProgressionSteps (historyWithBars h) = spec_totalSteps h
   \<and> 0 < spec_totalSteps h
   \<and> (\<forall>e \<in> set h. 0 < bars e \<longrightarrow> spec_entrySteps e = bars e * 16)
   \<and> (\<exists>k < length h.
         spec_stepsBefore h k \<le> int step mod spec_totalSteps h
       \<and> int step mod spec_totalSteps h < spec_stepsBefore h k + spec_entrySteps (h ! k))
   \<and> (\<forall>k < length h.
         spec_stepsBefore h k \<le> int step mod spec_totalSteps h
       \<and> int step mod spec_totalSteps h < spec_stepsBefore h k + spec_entrySteps (h ! k)
       \<longrightarrow> chainedResolve h step
             = (pattern (h ! k), int step mod spec_totalSteps h - spec_stepsBefore h k))
   \<and> (\<forall>e1 e2 rest. h = e1 # e2 # rest \<longrightarrow>
         chainedResolve h (nat (spec_entrySteps e1 - 1)) = (pattern e1, spec_entrySteps e1 - 1)
       \<and> chainedResolve h (nat (spec_entrySteps e1)) = (pattern e2, 0))"
proof (intro impI conjI)
  assume ne: "h \<noteq> []"
  show "totalProgressionSteps (historyWithBars h) = spec_totalSteps h"
    by (rule total_eq_spec)
  show pos: "0 < spec_totalSteps h"
    by (rule spec_totalSteps_pos[OF ne])
  show "\<forall>e \<in> set h. 0 < bars e \<longrightarrow> spec_entrySteps e = bars e * 16"
    by (simp add: spec_entrySteps_def barsOrDefault_def)
  show "\<exists>k < length h.
         spec_stepsBefore h k \<le> int step mod spec_totalSteps h
       \<and> int step mod spec_totalSteps h < spec_stepsBefore h k + spec_entrySteps (h ! k)"
    unfolding spec_stepsBefore_def
    using pos by (intro walk_index_exists) (simp_all add: spec_entrySteps_pos spec_totalSteps_def)
  show "\<forall>k < length h.
         spec_stepsBefore h k \<le> int step mod spec_totalSteps h
       \<and> int step mod spec_totalSteps h < spec_stepsBefore h k + spec_entrySteps (h ! k)
       \<longrightarrow> chainedResolve h step
             = (pattern (h ! k), int step mod spec_totalSteps h - spec_stepsBefore h k)"
    using chainedResolve_at by blast
  show "\<forall>e1 e2 rest. h = e1 # e2 # rest \<longrightarrow>
         chainedResolve h (nat (spec_entrySteps e1 - 1)) = (pattern e1, spec_entrySteps e1 - 1)
       \<and> chainedResolve h (nat (spec_entrySteps e1)) = (pattern e2, 0)"
  proof (intro allI impI)
    fix e1 e2 rest
    assume h: "h = e1 # e2 # rest"
    have r: "0 \<le> sum_list (map spec_entrySteps rest)"
      by (intro sum_list_nonneg) (auto simp: less_imp_le spec_entrySteps_pos)
    have tot: "spec_totalSteps h = spec_entrySteps e1 + spec_entrySteps e2 + sum_list (map spec_entrySteps rest)"
      by (simp add: h spec_totalSteps_def)
    have p1: "0 < spec_entrySteps e1" and p2: "0 < spec_entrySteps e2"
      by (rule spec_entrySteps_pos)+
    have m1: "int (nat (spec_entrySteps e1 - 1)) mod spec_totalSteps h = spec_entrySteps e1 - 1"
      using p1 p2 r tot by simp
    have m2: "int (nat (spec_entrySteps e1)) mod spec_totalSteps h = spec_entrySteps e1"
      using p1 p2 r tot by simp
    have a: "chainedResolve h (nat (spec_entrySteps e1 - 1))
               = (pattern (h ! 0), int (nat (spec_entrySteps e1 - 1)) mod spec_totalSteps h - spec_stepsBefore h 0)"
      using p1 m1 by (intro chainedResolve_at) (simp_all add: h spec_stepsBefore_def)
    have b: "chainedResolve h (nat (spec_entrySteps e1))
               = (pattern (h ! 1), int (nat (spec_entrySteps e1)) mod spec_totalSteps h - spec_stepsBefore h 1)"
      using p2 m2 by (intro chainedResolve_at) (simp_all add: h spec_stepsBefore_def)
    from a b m1 m2 show "chainedResolve h (nat (spec_entrySteps e1 - 1)) = (pattern e1, spec_entrySteps e1 - 1)
       \<and> chainedResolve h (nat (spec_entrySteps e1)) = (pattern e2, 0)"
      by (simp add: h spec_stepsBefore_def)
  qed
qed

text \<open>
  An instance: a history of a one-bar entry and an entry whose stored bar count is 0, at the
  steps 15, 16 and 100.
\<close>

theorem C2_chained_resolution_witness:
  "[\<lparr>pattern = Some [], bars = 1, prompt = ''a''\<rparr>,
    \<lparr>pattern = None, bars = 0, prompt = ''b''\<rparr>] \<noteq> []
   \<and> spec_totalSteps [\<lparr>pattern = Some [], bars = 1, prompt = ''a''\<rparr>,
                       \<lparr>pattern = None, bars = 0, prompt = ''b''\<rparr>] = 80
   \<and> chainedResolve [\<lparr>pattern = Some [], bars = 1, prompt = ''a''\<rparr>,
                      \<lparr>pattern = None, bars = 0, prompt = ''b''\<rparr>] 15 = (Some [], 15)
   \<and> chainedResolve [\<lparr>pattern = Some [], bars = 1, prompt = ''a''\<rparr>,
                      \<lparr>pattern = None, bars = 0, prompt = ''b''\<rparr>] 16 = (None, 0)
   \<and> (1::nat) < length [\<lparr>pattern = Some [], bars = 1, prompt = ''a''\<rparr>,
                          \<lparr>pattern = None, bars = 0, prompt = ''b''\<rparr>]
   \<and> chainedResolve [\<lparr>pattern = Some [], bars = 1, prompt = ''a''\<rparr>,
                      \<lparr>pattern = None, bars = 0, prompt = ''b''\<rparr>] 100 = (None, 4)"
proof -
  let ?h = "[\<lparr>pattern = Some [], bars = 1, prompt = ''a''\<rparr>,
             \<lparr>pattern = None, bars = 0, prompt = ''b''\<rparr>]"
  have ne: "?h \<noteq> []" by simp
  have tot: "spec_totalSteps ?h = 80"
    by (simp add: spec_totalSteps_def spec_entrySteps_def barsOrDefault_def DEFAULT_BARS_def)
  have b: "chainedResolve ?h 15 = (Some [], 15) \<and> chainedResolve ?h 16 = (None, 0)"
    using C2_chained_resolution[of ?h 0] ne
    by (simp add: spec_entrySteps_def barsOrDefault_def DEFAULT_BARS_def)
  note at = C2_chained_resolution[of ?h 100, THEN mp, OF ne, THEN conjunct2, THEN conjunct2,
      THEN conjunct2, THEN conjunct2, THEN conjunct1, THEN spec, of 1]
  have c: "chainedResolve ?h 100 = (None, 4)"
    using at tot
    by (simp add: spec_stepsBefore_def spec_entrySteps_def barsOrDefault_def DEFAULT_BARS_def)
  from ne tot b c show ?thesis by simp
qed

subsection \<open>C3: the controller value transform\<close>



subsection \<open>C4: deferred pattern switches\<close>



subsection \<open>C5: the length of the shared loop\<close>




subsection \<open>C6: note-offs come before note-ons within a step\<close>

text \<open>
  C6. Within one step of the MIDI backend the messages sent are, first, a note-off for every
  sounding note whose absoluteOffStep equals the current step, and only then the messages of
  the tracks (note-ons and controller values). The table handed to the tracks holds the same
  tracks and no note that ends on this step. With channels in 1..16 every message of the
  first part has a status byte below 0x90 and every message of the second part one of at
  least 0x90.
\<close>

theorem C6_note_off_before_note_on:
  "\<not> isPreviewMode st \<and> hasOutput st \<longrightarrow>
     (\<exists>offs remaining ons.
        sent (processMidiStep st s) = sent st @ offs @ ons
      \<and> offs = map noteOffMessage (filter (endsAt s) (concat (map snd (activePlayingNotes st))))
      \<and> remaining = map (\<lambda>(tid, ns). (tid, filter (\<lambda>a. \<not> endsAt s a) ns)) (activePlayingNotes st)
      \<and> (\<forall>(tid, ns) \<in> set remaining. \<forall>a \<in> set ns. \<not> endsAt s a)
      \<and> ons = fst (triggerTracks st s remaining)
      \<and> activePlayingNotes (processMidiStep st s) = snd (triggerTracks st s remaining)
      \<and> (\<forall>m \<in> set ons. \<exists>t \<in> set (tracks st).
            (\<exists>n. m = noteOnMessage t n) \<or> (\<exists>c v. m = [0xB0 + (channel t - 1), c, v]))
      \<and> ((\<forall>t \<in> set (tracks st). 1 \<le> channel t) \<longrightarrow> (\<forall>m \<in> set ons. 0x90 \<le> hd m))
      \<and> ((\<forall>a \<in> set (concat (map snd (activePlayingNotes st))). activeChannel a \<le> 16)
           \<longrightarrow> (\<forall>m \<in> set offs. hd m < 0x90)))"
proof (intro impI)
  assume a: "\<not> isPreviewMode st \<and> hasOutput st"
  let ?offs = "map noteOffMessage (filter (endsAt s) (concat (map snd (activePlayingNotes st))))"
  let ?remaining = "map (\<lambda>(tid, ns). (tid, filter (\<lambda>a. \<not> endsAt s a) ns)) (activePlayingNotes st)"
  let ?ons = "fst (triggerTracks st s ?remaining)"
  have s1: "sent (processMidiStep st s) = sent st @ ?offs @ ?ons"
    using a by (simp add: processMidiStep_sent releaseExpired_messages releaseExpired_table)
  have s2: "\<forall>(tid, ns) \<in> set ?remaining. \<forall>a \<in> set ns. \<not> endsAt s a"
    by auto
  have s3: "activePlayingNotes (processMidiStep st s) = snd (triggerTracks st s ?remaining)"
    using a by (simp add: processMidiStep_def Let_def releaseExpired_table)
  have s4: "\<forall>m \<in> set ?ons. \<exists>t \<in> set (tracks st).
            (\<exists>n. m = noteOnMessage t n) \<or> (\<exists>c v. m = [0xB0 + (channel t - 1), c, v])"
    by (rule triggerTracks_messages)
  have s5: "(\<forall>t \<in> set (tracks st). 1 \<le> channel t) \<longrightarrow> (\<forall>m \<in> set ?ons. 0x90 \<le> hd m)"
  proof (intro impI ballI)
    fix m
    assume ch: "\<forall>t \<in> set (tracks st). 1 \<le> channel t" and m: "m \<in> set ?ons"
    from s4 m obtain t where t: "t \<in> set (tracks st)"
      "(\<exists>n. m = noteOnMessage t n) \<or> (\<exists>c v. m = [0xB0 + (channel t - 1), c, v])"
      by blast
    from ch t(1) have "1 \<le> channel t" by blast
    with t(2) show "0x90 \<le> hd m" by (auto simp: noteOnMessage_def)
  qed
  have s6: "(\<forall>a \<in> set (concat (map snd (activePlayingNotes st))). activeChannel a \<le> 16)
           \<longrightarrow> (\<forall>m \<in> set ?offs. hd m < 0x90)"
  proof (intro impI ballI)
    fix m
    assume ch: "\<forall>a \<in> set (concat (map snd (activePlayingNotes st))). activeChannel a \<le> 16"
      and m: "m \<in> set ?offs"
    from m obtain a where a: "a \<in> set (concat (map snd (activePlayingNotes st)))"
      "m = noteOffMessage a" by auto
    from ch a(1) have "activeChannel a \<le> 16" by blast
    with a(2) show "hd m < 0x90" by (simp add: noteOffMessage_def)
  qed
  from s1 s2 s3 s4 s5 s6 show "\<exists>offs remaining ons.
        sent (processMidiStep st s) = sent st @ offs @ ons
      \<and> offs = map noteOffMessage (filter (endsAt s) (concat (map snd (activePlayingNotes st))))
      \<and> remaining = map (\<lambda>(tid, ns). (tid, filter (\<lambda>a. \<not> endsAt s a) ns)) (activePlayingNotes st)
      \<and> (\<forall>(tid, ns) \<in> set remaining. \<forall>a \<in> set ns. \<not> endsAt s a)
      \<and> ons = fst (triggerTracks st s remaining)
      \<and> activePlayingNotes (processMidiStep st s) = snd (triggerTracks st s remaining)
      \<and> (\<forall>m \<in> set ons. \<exists>t \<in> set (tracks st).
            (\<exists>n. m = noteOnMessage t n) \<or> (\<exists>c v. m = [0xB0 + (channel t - 1), c, v]))
      \<and> ((\<forall>t \<in> set (tracks st). 1 \<le> channel t) \<longrightarrow> (\<forall>m \<in> set ons. 0x90 \<le> hd m))
      \<and> ((\<forall>a \<in> set (concat (map snd (activePlayingNotes st))). activeChannel a \<le> 16)
           \<longrightarrow> (\<forall>m \<in> set offs. hd m < 0x90))"
    by blast
qed

text \<open>
  An instance: one synth track whose one-bar pattern has a note at beat 0, and a sounding
  note of that track that ends on step 16.
\<close>

theorem C6_note_off_before_note_on_witness:
  "(let st0 = initialState\<lparr>
        tracks := [initialSynthTrack\<lparr>patternHistory :=
                     [\<lparr>pattern = Some [\<lparr>noteNumber = 60, velocity = 100, time = Finite 0, duration = 1\<rparr>],
                       bars = 1, prompt = ''a''\<rparr>]\<rparr>],
        hasOutput := True,
        activePlayingNotes :=
          [(''synth-track-1'', [\<lparr>activeNote = 62, absoluteOffStep = 16, activeChannel = 1\<rparr>])]\<rparr>
    in \<not> isPreviewMode st0 \<and> hasOutput st0
       \<and> (\<forall>t \<in> set (tracks st0). 1 \<le> channel t)
       \<and> (\<forall>a \<in> set (concat (map snd (activePlayingNotes st0))). activeChannel a \<le> 16)
       \<and> sent (processMidiStep st0 16) = [[0x80, 62, 0], [0x90, 60, 100]]
       \<and> activePlayingNotes (processMidiStep st0 16)
           = [(''synth-track-1'', [\<lparr>activeNote = 60, absoluteOffStep = 20, activeChannel = 1\<rparr>])])"
  using C6_note_off_before_note_on[of
      "initialState\<lparr>
        tracks := [initialSynthTrack\<lparr>patternHistory :=
                     [\<lparr>pattern = Some [\<lparr>noteNumber = 60, velocity = 100, time = Finite 0, duration = 1\<rparr>],
                       bars = 1, prompt = ''a''\<rparr>]\<rparr>],
        hasOutput := True,
        activePlayingNotes :=
          [(''synth-track-1'', [\<lparr>activeNote = 62, absoluteOffStep = 16, activeChannel = 1\<rparr>])]\<rparr>" 16]
  by (simp add: Let_def initialState_def initialSynthTrack_def NUM_CC_LANES_def endsAt_def
      noteOffMessage_def triggerTracks_def processTrack_def resolvePattern_def liveEditFor_def
      nthOpt_def barsOrDefault_def startsAt_def noteOnMessage_def finalPitch_def
      startedNote_def ccMessages_def pow2_def)

subsection \<open>C7: invalid elements are dropped, a malformed response is an error\<close>

text \<open>
  C7. An element of a generation response passes validation exactly when it is an object
  whose note and velocity are finite numbers in [0,127], whose time is a finite number that is
  not negative and whose duration is a finite positive number. For an array the result is the
  list of the (normalized) valid elements, in order, and no error: every other element is
  dropped. A response that does not parse to an array gives an error. When the generation
  fails for a track of the list, the handler rethrows the error, the pattern history of every
  track is as before, and the track has its loading flag cleared and the error message
  attached; when it succeeds, no error is raised, and the track has the new pattern at the
  front of its history, no error message and the loading flag cleared.
\<close>

theorem C7_invalid_elements_dropped:
  "(validMidiNote p \<longleftrightarrow>
      (\<exists>props n v t d. p = JObject props
         \<and> map_of props ''note'' = Some (JNumber (Finite n)) \<and> 0 \<le> n \<and> n \<le> 127
         \<and> map_of props ''velocity'' = Some (JNumber (Finite v)) \<and> 0 \<le> v \<and> v \<le> 127
         \<and> map_of props ''time'' = Some (JNumber (Finite t)) \<and> 0 \<le> t
         \<and> map_of props ''duration'' = Some (JNumber (Finite d)) \<and> 0 < d))
   \<and> generateMidiPattern True (Inr (Inr (JArray elems)))
        = Inr (map toMidiNote (filter validMidiNote elems))
   \<and> ((\<forall>elems'. parsed \<noteq> Inr (JArray elems')) \<longrightarrow>
        (\<exists>msg. generateMidiPattern True (Inr parsed) = Inl msg))
   \<and> (find (\<lambda>t. trackId t = tid) (tracks st) \<noteq> None \<longrightarrow>
        fst (handleGeneratePattern st tid userPrompt b chained tmsg (Inl msg)) = Some msg
      \<and> map patternHistory (tracks (snd (handleGeneratePattern st tid userPrompt b chained tmsg (Inl msg))))
          = map patternHistory (tracks st)
      \<and> (\<forall>t' \<in> set (tracks (snd (handleGeneratePattern st tid userPrompt b chained tmsg (Inl msg)))).
            trackId t' = tid \<longrightarrow> \<not> isLoading t' \<and> error t' = Some msg)
      \<and> (\<exists>t' \<in> set (tracks (snd (handleGeneratePattern st tid userPrompt b chained tmsg (Inl msg)))).
            trackId t' = tid))
   \<and> (find (\<lambda>t. trackId t = tid) (tracks st) \<noteq> None \<longrightarrow>
        fst (handleGeneratePattern st tid userPrompt b chained tmsg (Inr notes)) = None
      \<and> (\<forall>i < length (tracks st). trackId (tracks st ! i) = tid \<longrightarrow>
            patternHistory (tracks (snd (handleGeneratePattern st tid userPrompt b chained tmsg (Inr notes))) ! i)
              = take MAX_PATTERN_HISTORY
                  (\<lparr>pattern = Some notes, bars = b, prompt = userPrompt\<rparr> # patternHistory (tracks st ! i))
          \<and> error (tracks (snd (handleGeneratePattern st tid userPrompt b chained tmsg (Inr notes))) ! i) = None
          \<and> \<not> isLoading (tracks (snd (handleGeneratePattern st tid userPrompt b chained tmsg (Inr notes))) ! i)))"
proof (intro conjI impI)
  show "validMidiNote p \<longleftrightarrow>
      (\<exists>props n v t d. p = JObject props
         \<and> map_of props ''note'' = Some (JNumber (Finite n)) \<and> 0 \<le> n \<and> n \<le> 127
         \<and> map_of props ''velocity'' = Some (JNumber (Finite v)) \<and> 0 \<le> v \<and> v \<le> 127
         \<and> map_of props ''time'' = Some (JNumber (Finite t)) \<and> 0 \<le> t
         \<and> map_of props ''duration'' = Some (JNumber (Finite d)) \<and> 0 < d)"
  proof
    assume "validMidiNote p"
    then obtain n v t d where f:
      "finiteNumber (getProp p ''note'') = Some n" "0 \<le> n" "n \<le> 127"
      "finiteNumber (getProp p ''velocity'') = Some v" "0 \<le> v" "v \<le> 127"
      "finiteNumber (getProp p ''time'') = Some t" "0 \<le> t"
      "finiteNumber (getProp p ''duration'') = Some d" "0 < d"
      by (auto simp: validMidiNote_def split: option.splits)
    from f(1) obtain props where p: "p = JObject props"
      by (auto simp: getProp_number)
    with f show "\<exists>props n v t d. p = JObject props
         \<and> map_of props ''note'' = Some (JNumber (Finite n)) \<and> 0 \<le> n \<and> n \<le> 127
         \<and> map_of props ''velocity'' = Some (JNumber (Finite v)) \<and> 0 \<le> v \<and> v \<le> 127
         \<and> map_of props ''time'' = Some (JNumber (Finite t)) \<and> 0 \<le> t
         \<and> map_of props ''duration'' = Some (JNumber (Finite d)) \<and> 0 < d"
      by (auto simp: finiteNumber_Some)
  next
    assume "\<exists>props n v t d. p = JObject props
         \<and> map_of props ''note'' = Some (JNumber (Finite n)) \<and> 0 \<le> n \<and> n \<le> 127
         \<and> map_of props ''velocity'' = Some (JNumber (Finite v)) \<and> 0 \<le> v \<and> v \<le> 127
         \<and> map_of props ''time'' = Some (JNumber (Finite t)) \<and> 0 \<le> t
         \<and> map_of props ''duration'' = Some (JNumber (Finite d)) \<and> 0 < d"
    then show "validMidiNote p"
      by (auto simp: validMidiNote_def)
  qed
next
  show "generateMidiPattern True (Inr (Inr (JArray elems)))
        = Inr (map toMidiNote (filter validMidiNote elems))"
    by (simp add: generateMidiPattern_def parseGeminiResponse_array)
next
  assume "\<forall>elems'. parsed \<noteq> Inr (JArray elems')"
  then obtain m where "parseGeminiResponse parsed = Inl m"
    using parseGeminiResponse_error by blast
  then show "\<exists>msg. generateMidiPattern True (Inr parsed) = Inl msg"
    by (simp add: generateMidiPattern_def)
next
  assume "find (\<lambda>t. trackId t = tid) (tracks st) \<noteq> None"
  then obtain ct where ct: "find (\<lambda>t. trackId t = tid) (tracks st) = Some ct" by auto
  note eq = handleGeneratePattern_failed[OF ct, of userPrompt b chained tmsg msg]
  let ?upd = "\<lambda>t. if trackId t = tid then t\<lparr>isLoading := False, error := Some msg\<rparr> else t"
  have tr: "tracks (snd (handleGeneratePattern st tid userPrompt b chained tmsg (Inl msg)))
              = map ?upd (tracks st)"
    by (simp add: eq)
  show "fst (handleGeneratePattern st tid userPrompt b chained tmsg (Inl msg)) = Some msg"
    by (simp add: eq)
  have "\<And>t. patternHistory (?upd t) = patternHistory t" by simp
  then have "map patternHistory (map ?upd (tracks st)) = map patternHistory (tracks st)"
    unfolding map_map o_def by simp
  then show "map patternHistory (tracks (snd (handleGeneratePattern st tid userPrompt b chained tmsg (Inl msg))))
          = map patternHistory (tracks st)"
    by (simp only: tr)
  show "\<forall>t' \<in> set (tracks (snd (handleGeneratePattern st tid userPrompt b chained tmsg (Inl msg)))).
            trackId t' = tid \<longrightarrow> \<not> isLoading t' \<and> error t' = Some msg"
  proof (intro ballI impI)
    fix t'
    assume "t' \<in> set (tracks (snd (handleGeneratePattern st tid userPrompt b chained tmsg (Inl msg))))"
      and b: "trackId t' = tid"
    then have "t' \<in> set (map ?upd (tracks st))" by (simp only: tr)
    from in_map_if[OF this] b obtain t where "t' = t\<lparr>isLoading := False, error := Some msg\<rparr>"
      by blast
    then show "\<not> isLoading t' \<and> error t' = Some msg" by simp
  qed
  from ct have c: "ct \<in> set (tracks st)" "trackId ct = tid"
    by (auto simp: find_Some_iff)
  from c(1) have "?upd ct \<in> ?upd ` set (tracks st)" by (rule imageI)
  then have "?upd ct \<in> set (map ?upd (tracks st))" by (simp only: set_map)
  then have "?upd ct \<in> set (tracks (snd (handleGeneratePattern st tid userPrompt b chained tmsg (Inl msg))))"
    by (simp only: tr)
  moreover have "trackId (?upd ct) = tid" using c(2) by simp
  ultimately show "\<exists>t' \<in> set (tracks (snd (handleGeneratePattern st tid userPrompt b chained tmsg (Inl msg)))).
            trackId t' = tid"
    by blast
next
  assume "find (\<lambda>t. trackId t = tid) (tracks st) \<noteq> None"
  then obtain ct where ct: "find (\<lambda>t. trackId t = tid) (tracks st) = Some ct" by auto
  note eq = handleGeneratePattern_succeeded[OF ct, of userPrompt b chained tmsg "notes"]
  show "fst (handleGeneratePattern st tid userPrompt b chained tmsg (Inr notes)) = None"
    by (simp add: eq)
  show "\<forall>i < length (tracks st). trackId (tracks st ! i) = tid \<longrightarrow>
            patternHistory (tracks (snd (handleGeneratePattern st tid userPrompt b chained tmsg (Inr notes))) ! i)
              = take MAX_PATTERN_HISTORY
                  (\<lparr>pattern = Some notes, bars = b, prompt = userPrompt\<rparr> # patternHistory (tracks st ! i))
          \<and> error (tracks (snd (handleGeneratePattern st tid userPrompt b chained tmsg (Inr notes))) ! i) = None
          \<and> \<not> isLoading (tracks (snd (handleGeneratePattern st tid userPrompt b chained tmsg (Inr notes))) ! i)"
    by (simp add: eq)
qed

text \<open>
  An instance: a response of three valid notes and one with note 200 gives the three notes; a
  response that is a string gives an error; a failed generation for the synth track of the
  initial state leaves both histories empty and attaches the message.
\<close>

theorem C7_invalid_elements_dropped_witness:
  "generateMidiPattern True (Inr (Inr (JArray
      [JObject [(''note'', JNumber (Finite 60)), (''velocity'', JNumber (Finite 100)),
                (''time'', JNumber (Finite 0)), (''duration'', JNumber (Finite 0.5))],
       JObject [(''note'', JNumber (Finite 200)), (''velocity'', JNumber (Finite 50)),
                (''time'', JNumber (Finite 0.5)), (''duration'', JNumber (Finite 0.5))],
       JObject [(''note'', JNumber (Finite 62)), (''velocity'', JNumber (Finite 90)),
                (''time'', JNumber (Finite 1)), (''duration'', JNumber (Finite 0.25))],
       JObject [(''note'', JNumber (Finite 64)), (''velocity'', JNumber (Finite 80)),
                (''time'', JNumber (Finite 2)), (''duration'', JNumber (Finite 1))]])))
     = Inr [\<lparr>noteNumber = 60, velocity = 100, time = Finite 0, duration = 0.5\<rparr>,
            \<lparr>noteNumber = 62, velocity = 90, time = Finite 1, duration = 0.25\<rparr>,
            \<lparr>noteNumber = 64, velocity = 80, time = Finite 2, duration = 1\<rparr>]
   \<and> \<not> validMidiNote (JObject [(''note'', JNumber (Finite 200)), (''velocity'', JNumber (Finite 50)),
                (''time'', JNumber (Finite 0.5)), (''duration'', JNumber (Finite 0.5))])
   \<and> (\<forall>elems'. (Inr (JString ''oops'') :: string + json) \<noteq> Inr (JArray elems'))
   \<and> (\<exists>msg. generateMidiPattern True (Inr (Inr (JString ''oops''))) = Inl msg)
   \<and> find (\<lambda>t. trackId t = ''synth-track-1'') (tracks initialState) \<noteq> None
   \<and> fst (handleGeneratePattern initialState ''synth-track-1'' ''p'' 4 False ''e'' (Inl ''failed''))
       = Some ''failed''
   \<and> map patternHistory
        (tracks (snd (handleGeneratePattern initialState ''synth-track-1'' ''p'' 4 False ''e'' (Inl ''failed''))))
       = [[], []]
   \<and> fst (handleGeneratePattern initialState ''synth-track-1'' ''p'' 4 False ''e'' (Inr [])) = None"
proof -
  let ?bad = "JObject [(''note'', JNumber (Finite 200)), (''velocity'', JNumber (Finite 50)),
                (''time'', JNumber (Finite 0.5)), (''duration'', JNumber (Finite 0.5))]"
  let ?elems = "[JObject [(''note'', JNumber (Finite 60)), (''velocity'', JNumber (Finite 100)),
                (''time'', JNumber (Finite 0)), (''duration'', JNumber (Finite 0.5))],
       ?bad,
       JObject [(''note'', JNumber (Finite 62)), (''velocity'', JNumber (Finite 90)),
                (''time'', JNumber (Finite 1)), (''duration'', JNumber (Finite 0.25))],
       JObject [(''note'', JNumber (Finite 64)), (''velocity'', JNumber (Finite 80)),
                (''time'', JNumber (Finite 2)), (''duration'', JNumber (Finite 1))]]"
  note inst = C7_invalid_elements_dropped[where elems="?elems" and p="?bad"
      and parsed="Inr (JString ''oops'')" and st=initialState and tid="''synth-track-1''"
      and userPrompt="''p''" and b=4 and chained=False and tmsg="''e''" and msg="''failed''"
      and ?notes="[]"]
  have bad: "\<not> validMidiNote ?bad"
    using inst[THEN conjunct1] by simp
  have found: "find (\<lambda>t. trackId t = ''synth-track-1'') (tracks initialState) \<noteq> None"
    by (simp add: initialState_def initialDrumTrack_def initialSynthTrack_def)
  have na: "\<forall>elems'. (Inr (JString ''oops'') :: string + json) \<noteq> Inr (JArray elems')"
    by simp
  have gen: "generateMidiPattern True (Inr (Inr (JArray ?elems)))
     = Inr [\<lparr>noteNumber = 60, velocity = 100, time = Finite 0, duration = 0.5\<rparr>,
            \<lparr>noteNumber = 62, velocity = 90, time = Finite 1, duration = 0.25\<rparr>,
            \<lparr>noteNumber = 64, velocity = 80, time = Finite 2, duration = 1\<rparr>]"
    unfolding inst[THEN conjunct2, THEN conjunct1]
    by (simp add: validMidiNote_def toMidiNote_def numberOf_def jsRound_def pow2_def)
  note err = inst[THEN conjunct2, THEN conjunct2, THEN conjunct1, THEN mp, OF na]
  note fail = inst[THEN conjunct2, THEN conjunct2, THEN conjunct2, THEN conjunct1, THEN mp, OF found]
  note ok = inst[THEN conjunct2, THEN conjunct2, THEN conjunct2, THEN conjunct2, THEN mp, OF found]
  have hist: "map patternHistory
        (tracks (snd (handleGeneratePattern initialState ''synth-track-1'' ''p'' 4 False ''e'' (Inl ''failed''))))
       = [[], []]"
    unfolding fail[THEN conjunct2, THEN conjunct1]
    by (simp add: initialState_def initialDrumTrack_def initialSynthTrack_def)
  from gen bad na err found fail[THEN conjunct1] hist ok[THEN conjunct1]
  show ?thesis by blast
qed

subsection \<open>C8: the external clock\<close>

text \<open>
  C8. In MIDI output mode with an input selected, while playing, a clock pulse (0xF8) counts
  one tick, and a step is processed exactly on the pulses that bring the tick count to a
  multiple of 6: on any other pulse nothing is sent and the step counter stays, on such a
  pulse the current step is processed and the counter advances by one; so after n pulses
  the counter has advanced by the number of multiples of 6 passed. A start message (0xFA),
  whatever the step and tick counters were, flushes the sounding notes, sets playing,
  restarts the tick count at 0 and plays step 0 at once, the step counter then being 1;
  after n further pulses it is 1 + n div 6. A continue message (0xFB) sets playing and
  leaves the step counter, the tick count and the log as they are. A stop message (0xFC)
  clears playing, leaves the step counter, and flushes: with an output selected the table of
  sounding notes is emptied after a note-off for each of its notes (of the tracks in the
  list) and controller 123 on the sixteen channels.
\<close>

theorem C8_external_clock:
  "\<not> isPreviewMode st \<longrightarrow>
     (selectedInputId st \<noteq> None \<and> isPlaying st \<longrightarrow>
         clockTickCounter (handleMidiMessage st 0xF8) = clockTickCounter st + 1
       \<and> absoluteStep (handleMidiMessage st 0xF8)
           = absoluteStep st + (if (clockTickCounter st + 1) mod 6 = 0 then 1 else 0)
       \<and> ((clockTickCounter st + 1) mod 6 \<noteq> 0 \<longrightarrow>
             handleMidiMessage st 0xF8
               = st\<lparr>isExternalClock := True, clockTickCounter := clockTickCounter st + 1\<rparr>)
       \<and> ((clockTickCounter st + 1) mod 6 = 0 \<longrightarrow>
             (\<exists>extra. sent (handleMidiMessage st 0xF8)
                = sent (processMidiStep
                          (st\<lparr>isExternalClock := True, clockTickCounter := clockTickCounter st + 1\<rparr>)
                          (absoluteStep st)) @ extra))
       \<and> absoluteStep (((\<lambda>s. handleMidiMessage s 0xF8) ^^ n) st)
           = absoluteStep st + ((clockTickCounter st + n) div 6 - clockTickCounter st div 6))
   \<and> isPlaying (handleMidiMessage st 0xFA)
   \<and> isExternalClock (handleMidiMessage st 0xFA)
   \<and> clockTickCounter (handleMidiMessage st 0xFA) = 0
   \<and> absoluteStep (handleMidiMessage st 0xFA) = 1
   \<and> handleMidiMessage (st\<lparr>absoluteStep := k, clockTickCounter := c\<rparr>) 0xFA
       = handleMidiMessage st 0xFA
   \<and> (hasOutput st \<longrightarrow>
         sent (handleMidiMessage st 0xFA)
           = sent st @ allNotesOffMessages st @ fst (triggerTracks st 0 [])
       \<and> activePlayingNotes (handleMidiMessage st 0xFA) = snd (triggerTracks st 0 []))
   \<and> (selectedInputId st \<noteq> None \<longrightarrow>
         absoluteStep (((\<lambda>s. handleMidiMessage s 0xF8) ^^ n) (handleMidiMessage st 0xFA))
           = 1 + n div 6)
   \<and> handleMidiMessage st 0xFB = st\<lparr>isExternalClock := True, isPlaying := True\<rparr>
   \<and> \<not> isPlaying (handleMidiMessage st 0xFC)
   \<and> \<not> isExternalClock (handleMidiMessage st 0xFC)
   \<and> absoluteStep (handleMidiMessage st 0xFC) = absoluteStep st
   \<and> (hasOutput st \<longrightarrow>
         activePlayingNotes (handleMidiMessage st 0xFC) = []
       \<and> sent (handleMidiMessage st 0xFC) = sent st @ allNotesOffMessages st)
   \<and> ((\<forall>(tid, ns) \<in> set (activePlayingNotes st).
          find (\<lambda>t. trackId t = tid) (tracks st) \<noteq> None) \<longrightarrow>
        allNotesOffMessages st
          = map noteOffMessage (concat (map snd (activePlayingNotes st)))
            @ map (\<lambda>i. [0xB0 + int i, 123, 0]) [0..<16])"
proof (intro impI)
  assume np: "\<not> isPreviewMode st"
  have clock: "selectedInputId st \<noteq> None \<and> isPlaying st \<longrightarrow>
         clockTickCounter (handleMidiMessage st 0xF8) = clockTickCounter st + 1
       \<and> absoluteStep (handleMidiMessage st 0xF8)
           = absoluteStep st + (if (clockTickCounter st + 1) mod 6 = 0 then 1 else 0)
       \<and> ((clockTickCounter st + 1) mod 6 \<noteq> 0 \<longrightarrow>
             handleMidiMessage st 0xF8
               = st\<lparr>isExternalClock := True, clockTickCounter := clockTickCounter st + 1\<rparr>)
       \<and> ((clockTickCounter st + 1) mod 6 = 0 \<longrightarrow>
             (\<exists>extra. sent (handleMidiMessage st 0xF8)
                = sent (processMidiStep
                          (st\<lparr>isExternalClock := True, clockTickCounter := clockTickCounter st + 1\<rparr>)
                          (absoluteStep st)) @ extra))
       \<and> absoluteStep (((\<lambda>s. handleMidiMessage s 0xF8) ^^ n) st)
           = absoluteStep st + ((clockTickCounter st + n) div 6 - clockTickCounter st div 6)"
  proof (intro impI)
    assume a: "selectedInputId st \<noteq> None \<and> isPlaying st"
    then have sel: "selectedInputId st \<noteq> None" and pl: "isPlaying st" by simp_all
    note p = clock_pulse[OF np sel]
    have p2: "absoluteStep (handleMidiMessage st 0xF8)
           = absoluteStep st + (if (clockTickCounter st + 1) mod 6 = 0 then 1 else 0)"
      using p(2) pl by simp
    from p(1) p2 clock_pulse_idle[OF np sel] clock_pulse_step[OF np sel _ pl]
      clock_pulses[OF np sel pl, of n]
    show "clockTickCounter (handleMidiMessage st 0xF8) = clockTickCounter st + 1
       \<and> absoluteStep (handleMidiMessage st 0xF8)
           = absoluteStep st + (if (clockTickCounter st + 1) mod 6 = 0 then 1 else 0)
       \<and> ((clockTickCounter st + 1) mod 6 \<noteq> 0 \<longrightarrow>
             handleMidiMessage st 0xF8
               = st\<lparr>isExternalClock := True, clockTickCounter := clockTickCounter st + 1\<rparr>)
       \<and> ((clockTickCounter st + 1) mod 6 = 0 \<longrightarrow>
             (\<exists>extra. sent (handleMidiMessage st 0xF8)
                = sent (processMidiStep
                          (st\<lparr>isExternalClock := True, clockTickCounter := clockTickCounter st + 1\<rparr>)
                          (absoluteStep st)) @ extra))
       \<and> absoluteStep (((\<lambda>s. handleMidiMessage s 0xF8) ^^ n) st)
           = absoluteStep st + ((clockTickCounter st + n) div 6 - clockTickCounter st div 6)"
      by blast
  qed
  note s = start_message[OF np]
  have after: "selectedInputId st \<noteq> None \<longrightarrow>
         absoluteStep (((\<lambda>s. handleMidiMessage s 0xF8) ^^ n) (handleMidiMessage st 0xFA))
           = 1 + n div 6"
  proof
    assume sel: "selectedInputId st \<noteq> None"
    have "\<not> isPreviewMode (handleMidiMessage st 0xFA)" using s(5) np by simp
    moreover have "selectedInputId (handleMidiMessage st 0xFA) \<noteq> None" using s(6) sel by simp
    ultimately show "absoluteStep (((\<lambda>s. handleMidiMessage s 0xF8) ^^ n) (handleMidiMessage st 0xFA))
           = 1 + n div 6"
      using clock_pulses[of "handleMidiMessage st 0xFA" n] s(1,3,4) by simp
  qed
  have cont: "handleMidiMessage st 0xFB = st\<lparr>isExternalClock := True, isPlaying := True\<rparr>"
    using np by (simp add: handleMidiMessage_def)
  note t = stop_message[OF np]
  from clock s(1,2,3,4) s(7)[where k=k and c=c] start_message_sent[OF np] after cont t(1,2,3) t(6,7)
    allNotesOffMessages_all[of st]
  show "(selectedInputId st \<noteq> None \<and> isPlaying st \<longrightarrow>
         clockTickCounter (handleMidiMessage st 0xF8) = clockTickCounter st + 1
       \<and> absoluteStep (handleMidiMessage st 0xF8)
           = absoluteStep st + (if (clockTickCounter st + 1) mod 6 = 0 then 1 else 0)
       \<and> ((clockTickCounter st + 1) mod 6 \<noteq> 0 \<longrightarrow>
             handleMidiMessage st 0xF8
               = st\<lparr>isExternalClock := True, clockTickCounter := clockTickCounter st + 1\<rparr>)
       \<and> ((clockTickCounter st + 1) mod 6 = 0 \<longrightarrow>
             (\<exists>extra. sent (handleMidiMessage st 0xF8)
                = sent (processMidiStep
                          (st\<lparr>isExternalClock := True, clockTickCounter := clockTickCounter st + 1\<rparr>)
                          (absoluteStep st)) @ extra))
       \<and> absoluteStep (((\<lambda>s. handleMidiMessage s 0xF8) ^^ n) st)
           = absoluteStep st + ((clockTickCounter st + n) div 6 - clockTickCounter st div 6))
   \<and> isPlaying (handleMidiMessage st 0xFA)
   \<and> isExternalClock (handleMidiMessage st 0xFA)
   \<and> clockTickCounter (handleMidiMessage st 0xFA) = 0
   \<and> absoluteStep (handleMidiMessage st 0xFA) = 1
   \<and> handleMidiMessage (st\<lparr>absoluteStep := k, clockTickCounter := c\<rparr>) 0xFA
       = handleMidiMessage st 0xFA
   \<and> (hasOutput st \<longrightarrow>
         sent (handleMidiMessage st 0xFA)
           = sent st @ allNotesOffMessages st @ fst (triggerTracks st 0 [])
       \<and> activePlayingNotes (handleMidiMessage st 0xFA) = snd (triggerTracks st 0 []))
   \<and> (selectedInputId st \<noteq> None \<longrightarrow>
         absoluteStep (((\<lambda>s. handleMidiMessage s 0xF8) ^^ n) (handleMidiMessage st 0xFA))
           = 1 + n div 6)
   \<and> handleMidiMessage st 0xFB = st\<lparr>isExternalClock := True, isPlaying := True\<rparr>
   \<and> \<not> isPlaying (handleMidiMessage st 0xFC)
   \<and> \<not> isExternalClock (handleMidiMessage st 0xFC)
   \<and> absoluteStep (handleMidiMessage st 0xFC) = absoluteStep st
   \<and> (hasOutput st \<longrightarrow>
         activePlayingNotes (handleMidiMessage st 0xFC) = []
       \<and> sent (handleMidiMessage st 0xFC) = sent st @ allNotesOffMessages st)
   \<and> ((\<forall>(tid, ns) \<in> set (activePlayingNotes st).
          find (\<lambda>t. trackId t = tid) (tracks st) \<noteq> None) \<longrightarrow>
        allNotesOffMessages st
          = map noteOffMessage (concat (map snd (activePlayingNotes st)))
            @ map (\<lambda>i. [0xB0 + int i, 123, 0]) [0..<16])"
    by (intro conjI impI) blast+
qed

text \<open>
  An instance: the synth track of the initial state with one sounding note, playing at step
  3 with an input and an output selected. At tick count 5 a pulse advances the step to 4, at
  tick count 0 it only counts; twelve pulses after a start the step counter is 3; a stop
  sends the note-off and the sixteen controller messages and empties the table.
\<close>

theorem C8_external_clock_witness:
  "(let st0 = initialState\<lparr>
        tracks := [initialSynthTrack], isPlaying := True, hasOutput := True,
        selectedInputId := Some ''input-1'',
        activePlayingNotes :=
          [(''synth-track-1'', [\<lparr>activeNote = 62, absoluteOffStep = 9, activeChannel = 1\<rparr>])],
        absoluteStep := 3, clockTickCounter := 5\<rparr>
    in \<not> isPreviewMode st0 \<and> selectedInputId st0 \<noteq> None \<and> isPlaying st0 \<and> hasOutput st0
     \<and> (clockTickCounter st0 + 1) mod 6 = 0
     \<and> absoluteStep (handleMidiMessage st0 0xF8) = 4
     \<and> (clockTickCounter (st0\<lparr>clockTickCounter := 0\<rparr>) + 1) mod 6 \<noteq> 0
     \<and> handleMidiMessage (st0\<lparr>clockTickCounter := 0\<rparr>) 0xF8
         = st0\<lparr>isExternalClock := True, clockTickCounter := 1\<rparr>
     \<and> absoluteStep (handleMidiMessage st0 0xFA) = 1
     \<and> absoluteStep (((\<lambda>s. handleMidiMessage s 0xF8) ^^ 12) (handleMidiMessage st0 0xFA)) = 3
     \<and> absoluteStep (handleMidiMessage st0 0xFB) = 3
     \<and> (\<forall>(tid, ns) \<in> set (activePlayingNotes st0).
           find (\<lambda>t. trackId t = tid) (tracks st0) \<noteq> None)
     \<and> activePlayingNotes (handleMidiMessage st0 0xFC) = []
     \<and> sent (handleMidiMessage st0 0xFC)
         = [0x80, 62, 0] # map (\<lambda>i. [0xB0 + int i, 123, 0]) [0..<16])"
proof -
  let ?st0 = "initialState\<lparr>
        tracks := [initialSynthTrack], isPlaying := True, hasOutput := True,
        selectedInputId := Some ''input-1'',
        activePlayingNotes :=
          [(''synth-track-1'', [\<lparr>activeNote = 62, absoluteOffStep = 9, activeChannel = 1\<rparr>])],
        absoluteStep := 3, clockTickCounter := 5\<rparr>"
  have h: "\<not> isPreviewMode ?st0" "selectedInputId ?st0 \<noteq> None" "isPlaying ?st0" "hasOutput ?st0"
    "clockTickCounter ?st0 = 5" "absoluteStep ?st0 = 3" "sent ?st0 = []"
    by (simp_all add: initialState_def)
  have f: "\<forall>(tid, ns) \<in> set (activePlayingNotes ?st0).
           find (\<lambda>t. trackId t = tid) (tracks ?st0) \<noteq> None"
    by (simp add: initialSynthTrack_def)
  note inst = C8_external_clock[where st="?st0" and n=12, THEN mp, OF h(1)]
  note clock = inst[THEN conjunct1, THEN mp, OF conjI[OF h(2,3)]]
  have a: "absoluteStep (handleMidiMessage ?st0 0xF8) = 4"
    using clock[THEN conjunct2, THEN conjunct1] h(5,6) by simp
  let ?st0' = "?st0\<lparr>clockTickCounter := 0\<rparr>"
  have h': "\<not> isPreviewMode ?st0'" "selectedInputId ?st0' \<noteq> None \<and> isPlaying ?st0'"
    by (simp_all add: initialState_def)
  note clock' = C8_external_clock[where st="?st0'", THEN mp, OF h'(1), THEN conjunct1, THEN mp, OF h'(2)]
  have b: "handleMidiMessage ?st0' 0xF8 = ?st0\<lparr>isExternalClock := True, clockTickCounter := 1\<rparr>"
    using clock'[THEN conjunct2, THEN conjunct2, THEN conjunct1] by simp
  have c: "absoluteStep (handleMidiMessage ?st0 0xFA) = 1"
    using inst by blast
  have d: "absoluteStep (((\<lambda>s. handleMidiMessage s 0xF8) ^^ 12) (handleMidiMessage ?st0 0xFA)) = 3"
    using inst h(2) by simp
  have e: "absoluteStep (handleMidiMessage ?st0 0xFB) = 3"
    using inst h(6) by simp
  have msgs: "allNotesOffMessages ?st0 = [0x80, 62, 0] # map (\<lambda>i. [0xB0 + int i, 123, 0]) [0..<16]"
    using inst f by (simp add: noteOffMessage_def)
  have g: "activePlayingNotes (handleMidiMessage ?st0 0xFC) = []"
    "sent (handleMidiMessage ?st0 0xFC) = [0x80, 62, 0] # map (\<lambda>i. [0xB0 + int i, 123, 0]) [0..<16]"
    using inst h(4,7) msgs by simp_all
  from h(1-4) a b c d e f g show ?thesis
    by (simp add: Let_def)
qed

subsection \<open>C9: octave transposition at trigger time\<close>

text \<open>
  C9. In MIDI output mode the messages of a step are the note-offs of the notes that end on
  it followed, track by track, by a note-on for every note of the resolved pattern that
  starts on the local step and by the controller messages of the track; the note-on carries
  the channel status, the final pitch and the stored velocity. For a melodic (synth) track
  with octave shift s the final pitch is clamp(0,127, rawPitch + s * 12), so that for an
  unmuted synth track of the state whose resolved pattern has a note starting on the local
  step, the note-on with that pitch is among the messages the step sends; for a drum track,
  or without an octave shift, the pitch is clamp(0,127, rawPitch). The pitch lies in
  [0,127]. Triggering never changes a stored pattern: processing a step leaves the tracks as
  they are, and a scheduler step and a handled MIDI message leave the pattern history of
  every track as it is.
\<close>

theorem C9_octave_shift_at_trigger:
  "(\<not> isPreviewMode st \<and> hasOutput st \<longrightarrow>
      sent (processMidiStep st step)
        = sent st
          @ map noteOffMessage (filter (endsAt step) (concat (map snd (activePlayingNotes st))))
          @ concat (map (\<lambda>t. if isMuted t then []
                         else case resolvePattern (liveEditingPattern st) (fullscreenTrackId st) t step of
                                (None, l) \<Rightarrow> []
                              | (Some p, l) \<Rightarrow>
                                  map (\<lambda>n. [0x90 + (channel t - 1), finalPitch t n, velocity n])
                                    (filter (startsAt l) p)
                                  @ ccMessages t step)
                     (tracks st)))
   \<and> (\<not> isPreviewMode st \<and> hasOutput st \<and> t \<in> set (tracks st) \<and> \<not> isMuted t
        \<and> trackType t = SYNTH \<and> octaveShift t = Some shift
        \<and> resolvePattern (liveEditingPattern st) (fullscreenTrackId st) t step = (Some p, l)
        \<and> n \<in> set p \<and> startsAt l n \<longrightarrow>
        [0x90 + (channel t - 1), clamp127 (noteNumber n + shift * 12), velocity n]
          \<in> set (sent (processMidiStep st step)))
   \<and> (trackType t = SYNTH \<and> octaveShift t = Some shift \<longrightarrow>
        finalPitch t n = clamp127 (noteNumber n + shift * 12))
   \<and> (trackType t = DRUM \<longrightarrow> finalPitch t n = clamp127 (noteNumber n))
   \<and> (octaveShift t = None \<longrightarrow> finalPitch t n = clamp127 (noteNumber n))
   \<and> 0 \<le> finalPitch t n \<and> finalPitch t n \<le> 127
   \<and> noteOnMessage t n = [0x90 + (channel t - 1), finalPitch t n, velocity n]
   \<and> tracks (processMidiStep st step) = tracks st
   \<and> map patternHistory (tracks (schedulerStep st)) = map patternHistory (tracks st)
   \<and> map patternHistory (tracks (handleMidiMessage st command)) = map patternHistory (tracks st)"
proof -
  have a: "trackType t = SYNTH \<and> octaveShift t = Some shift \<longrightarrow>
      finalPitch t n = clamp127 (noteNumber n + shift * 12)"
    by (simp add: finalPitch_def clamp127_def Let_def)
  have b: "trackType t = DRUM \<longrightarrow> finalPitch t n = clamp127 (noteNumber n)"
    by (simp add: finalPitch_def clamp127_def Let_def split: option.splits)
  have c: "octaveShift t = None \<longrightarrow> finalPitch t n = clamp127 (noteNumber n)"
    by (simp add: finalPitch_def clamp127_def Let_def)
  have d: "0 \<le> finalPitch t n \<and> finalPitch t n \<le> 127"
    by (simp add: finalPitch_def Let_def)
  have e: "noteOnMessage t n = [0x90 + (channel t - 1), finalPitch t n, velocity n]"
    by (simp add: noteOnMessage_def)
  have on: "noteOnMessage = (\<lambda>t n. [0x90 + (channel t - 1), finalPitch t n, velocity n])"
    by (intro ext) (simp only: noteOnMessage_def)
  have all: "\<not> isPreviewMode st \<and> hasOutput st \<longrightarrow>
      sent (processMidiStep st step)
        = sent st
          @ map noteOffMessage (filter (endsAt step) (concat (map snd (activePlayingNotes st))))
          @ concat (map (\<lambda>t. if isMuted t then []
                         else case resolvePattern (liveEditingPattern st) (fullscreenTrackId st) t step of
                                (None, l) \<Rightarrow> []
                              | (Some p, l) \<Rightarrow>
                                  map (\<lambda>n. [0x90 + (channel t - 1), finalPitch t n, velocity n])
                                    (filter (startsAt l) p)
                                  @ ccMessages t step)
                     (tracks st))"
  proof
    assume h: "\<not> isPreviewMode st \<and> hasOutput st"
    show "sent (processMidiStep st step)
        = sent st
          @ map noteOffMessage (filter (endsAt step) (concat (map snd (activePlayingNotes st))))
          @ concat (map (\<lambda>t. if isMuted t then []
                         else case resolvePattern (liveEditingPattern st) (fullscreenTrackId st) t step of
                                (None, l) \<Rightarrow> []
                              | (Some p, l) \<Rightarrow>
                                  map (\<lambda>n. [0x90 + (channel t - 1), finalPitch t n, velocity n])
                                    (filter (startsAt l) p)
                                  @ ccMessages t step)
                     (tracks st))"
      using processMidiStep_sent_tracks[of st step] h unfolding on by blast
  qed
  have mem: "\<not> isPreviewMode st \<and> hasOutput st \<and> t \<in> set (tracks st) \<and> \<not> isMuted t
        \<and> trackType t = SYNTH \<and> octaveShift t = Some shift
        \<and> resolvePattern (liveEditingPattern st) (fullscreenTrackId st) t step = (Some p, l)
        \<and> n \<in> set p \<and> startsAt l n \<longrightarrow>
        [0x90 + (channel t - 1), clamp127 (noteNumber n + shift * 12), velocity n]
          \<in> set (sent (processMidiStep st step))"
  proof
    assume h: "\<not> isPreviewMode st \<and> hasOutput st \<and> t \<in> set (tracks st) \<and> \<not> isMuted t
        \<and> trackType t = SYNTH \<and> octaveShift t = Some shift
        \<and> resolvePattern (liveEditingPattern st) (fullscreenTrackId st) t step = (Some p, l)
        \<and> n \<in> set p \<and> startsAt l n"
    then have fp: "finalPitch t n = clamp127 (noteNumber n + shift * 12)"
      using a by blast
    have "noteOnMessage t n \<in> set (map (noteOnMessage t) (filter (startsAt l) p) @ ccMessages t step)"
      using h by simp
    then have "noteOnMessage t n \<in> set (sent (processMidiStep st step))"
      using h track_messages_sent[of st t step p l "noteOnMessage t n"] by blast
    then show "[0x90 + (channel t - 1), clamp127 (noteNumber n + shift * 12), velocity n]
          \<in> set (sent (processMidiStep st step))"
      by (simp only: e fp)
  qed
  from all mem a b c d e processMidiStep_frame(1)[of st step] schedulerStep_history[of st]
    handleMidiMessage_history[of st command]
  show ?thesis by blast
qed

text \<open>
  An instance: a synth track shifted up by one octave whose one-bar pattern has the pitches
  60 and 120 at beat 0 and the pitch 62 at beat 1. Step 16 is local step 0: the step sends
  the note-ons with the pitches 72 and 127, and the stored pattern still holds 60, 120 and
  62. On the drum track the pitch 120 is sent as it is.
\<close>

theorem C9_octave_shift_at_trigger_witness:
  "sent (processMidiStep
      (initialState\<lparr>
         tracks := [initialSynthTrack\<lparr>octaveShift := Some 1, patternHistory :=
                      [\<lparr>pattern = Some [\<lparr>noteNumber = 60, velocity = 100, time = Finite 0, duration = 1\<rparr>,
                                        \<lparr>noteNumber = 120, velocity = 90, time = Finite 0, duration = 1\<rparr>,
                                        \<lparr>noteNumber = 62, velocity = 80, time = Finite 1, duration = 1\<rparr>],
                        bars = 1, prompt = ''a''\<rparr>]\<rparr>],
         hasOutput := True\<rparr>) 16)
     = [[0x90, 72, 100], [0x90, 127, 90]]
   \<and> [0x90, 127, 90] \<in> set (sent (processMidiStep
      (initialState\<lparr>
         tracks := [initialSynthTrack\<lparr>octaveShift := Some 1, patternHistory :=
                      [\<lparr>pattern = Some [\<lparr>noteNumber = 60, velocity = 100, time = Finite 0, duration = 1\<rparr>,
                                        \<lparr>noteNumber = 120, velocity = 90, time = Finite 0, duration = 1\<rparr>,
                                        \<lparr>noteNumber = 62, velocity = 80, time = Finite 1, duration = 1\<rparr>],
                        bars = 1, prompt = ''a''\<rparr>]\<rparr>],
         hasOutput := True\<rparr>) 16))
   \<and> map patternHistory (tracks (processMidiStep
      (initialState\<lparr>
         tracks := [initialSynthTrack\<lparr>octaveShift := Some 1, patternHistory :=
                      [\<lparr>pattern = Some [\<lparr>noteNumber = 60, velocity = 100, time = Finite 0, duration = 1\<rparr>,
                                        \<lparr>noteNumber = 120, velocity = 90, time = Finite 0, duration = 1\<rparr>,
                                        \<lparr>noteNumber = 62, velocity = 80, time = Finite 1, duration = 1\<rparr>],
                        bars = 1, prompt = ''a''\<rparr>]\<rparr>],
         hasOutput := True\<rparr>) 16))
     = [[\<lparr>pattern = Some [\<lparr>noteNumber = 60, velocity = 100, time = Finite 0, duration = 1\<rparr>,
                        \<lparr>noteNumber = 120, velocity = 90, time = Finite 0, duration = 1\<rparr>,
                        \<lparr>noteNumber = 62, velocity = 80, time = Finite 1, duration = 1\<rparr>],
          bars = 1, prompt = ''a''\<rparr>]]
   \<and> trackType initialDrumTrack = DRUM
   \<and> finalPitch initialDrumTrack \<lparr>noteNumber = 120, velocity = 100, time = Finite 0, duration = 1\<rparr> = 120"
proof -
  let ?n1 = "\<lparr>noteNumber = 60, velocity = 100, time = Finite 0, duration = 1\<rparr>"
  let ?n2 = "\<lparr>noteNumber = 120, velocity = 90, time = Finite 0, duration = 1\<rparr>"
  let ?n3 = "\<lparr>noteNumber = 62, velocity = 80, time = Finite 1, duration = 1\<rparr>"
  let ?t = "initialSynthTrack\<lparr>octaveShift := Some 1, patternHistory :=
              [\<lparr>pattern = Some [?n1, ?n2, ?n3], bars = 1, prompt = ''a''\<rparr>]\<rparr>"
  let ?st = "initialState\<lparr>tracks := [?t], hasOutput := True\<rparr>"
  note inst = C9_octave_shift_at_trigger[where st="?st" and step=16 and t="?t" and shift=1
      and p="[?n1, ?n2, ?n3]" and l=0 and n="?n2"]
  have mode: "\<not> isPreviewMode ?st \<and> hasOutput ?st"
    by (simp add: initialState_def)
  have fields: "liveEditingPattern ?st = (\<lambda>x. None)" "fullscreenTrackId ?st = None"
    "sent ?st = []" "activePlayingNotes ?st = []"
    by (simp_all add: initialState_def)
  have res: "resolvePattern (\<lambda>x. None) None ?t 16 = (Some [?n1, ?n2, ?n3], 0)"
    by (simp add: initialSynthTrack_def resolvePattern_def liveEditFor_def
        nthOpt_def barsOrDefault_def Let_def)
  have s1: "startsAt 0 ?n1" and s2: "startsAt 0 ?n2" and s3: "\<not> startsAt 0 ?n3"
    by (simp_all add: startsAt_def pow2_def)
  have tr: "tracks ?st = [?t]" "\<not> isMuted ?t" "trackType ?t = SYNTH" "octaveShift ?t = Some 1"
    "channel ?t = 1"
    by (simp_all add: initialSynthTrack_def)
  have cc: "ccMessages ?t 16 = []"
    by (simp add: ccMessages_def initialSynthTrack_def NUM_CC_LANES_def)
  have fp: "finalPitch ?t ?n1 = 72" "finalPitch ?t ?n2 = 127"
    using inst[THEN conjunct2, THEN conjunct2, THEN conjunct1]
      C9_octave_shift_at_trigger[where t="?t" and shift=1 and n="?n1",
        THEN conjunct2, THEN conjunct2, THEN conjunct1]
    by (simp_all add: tr clamp127_def)
  have a: "sent (processMidiStep ?st 16) = [[0x90, 72, 100], [0x90, 127, 90]]"
    using inst[THEN conjunct1, THEN mp, OF mode]
    by (simp add: tr fields res s1 s2 s3 cc fp)
  have b: "[0x90, 127, 90] \<in> set (sent (processMidiStep ?st 16))"
    using inst[THEN conjunct2, THEN conjunct1] mode s2
    by (simp add: tr fields res clamp127_def)
  have c: "map patternHistory (tracks (processMidiStep ?st 16))
     = [[\<lparr>pattern = Some [?n1, ?n2, ?n3], bars = 1, prompt = ''a''\<rparr>]]"
    using inst[THEN conjunct2, THEN conjunct2, THEN conjunct2, THEN conjunct2, THEN conjunct2,
      THEN conjunct2, THEN conjunct2, THEN conjunct2, THEN conjunct1]
    by simp
  have d: "trackType initialDrumTrack = DRUM
     \<and> finalPitch initialDrumTrack \<lparr>noteNumber = 120, velocity = 100, time = Finite 0, duration = 1\<rparr> = 120"
    using C9_octave_shift_at_trigger[where t=initialDrumTrack
      and n="\<lparr>noteNumber = 120, velocity = 100, time = Finite 0, duration = 1\<rparr>"]
    by (simp add: initialDrumTrack_def clamp127_def)
  from a b c d show ?thesis by blast
qed

subsection \<open>C10: a valid element is stored as a normalized copy\<close>




end
